theory Spec2Isabelle
  imports Complex_Main
begin

section \<open>ChainLens: the Gemini supervisor, the message classifier and the wallet summary\<close>

text \<open>
  A shallow embedding of \<^verbatim>\<open>server-simple.js\<close>: the class \<^verbatim>\<open>GeminiMCPServer\<close>
  (connection supervisor, message classifier, wallet-context fetch and summary), the
  function \<^verbatim>\<open>getGasPrice\<close> and the balance conversion of the wallet route.

  Conventions.
  \<^item> A JavaScript string is a \<open>string\<close>; its characters are read as the UTF-16 code
    units U+0000 .. U+00FF. All keywords and patterns of the source are ASCII.
  \<^item> A JavaScript number is a \<open>number\<close>: an exact rational or \<open>NaN\<close>. The rounding
    of binary64 arithmetic, its infinities and the exponent form of large numbers are
    not modelled: the conversions agree with the source where every intermediate value
    is a binary64 number, as at the inputs evaluated below (0, 42000000000 and
    1500000000000000000 wei).
  \<^item> A \<^verbatim>\<open>throw\<close> is the left injection of a sum and carries the state in which it
    happened, so that a \<^verbatim>\<open>catch\<close> handler continues from that state.
  \<^item> The outcome of every awaited external call (Gemini, axios) is an argument.
\<close>

subsection \<open>Strings\<close>

definition lower_char :: "char \<Rightarrow> char" where
  \<comment> \<open>\<^verbatim>\<open>toLowerCase\<close> on one code unit: A-Z, and the Latin-1 capitals U+00C0 .. U+00DE
      except the multiplication sign U+00D7.\<close>
  "lower_char c =
     (let n = (of_char c :: nat)
      in if (65 \<le> n \<and> n \<le> 90) \<or> (192 \<le> n \<and> n \<le> 222 \<and> n \<noteq> 215)
         then char_of (n + 32) else c)"

definition toLowerCase :: "string \<Rightarrow> string" where
  "toLowerCase s = map lower_char s"

definition upper_char :: "char \<Rightarrow> char" where
  \<comment> \<open>\<^verbatim>\<open>toUpperCase\<close> on one code unit: a-z, and the Latin-1 small letters
      U+00E0 .. U+00FE except the division sign U+00F7. The three code units whose
      upper-case form leaves the 8-bit range (U+00B5, U+00DF, U+00FF) are left as they
      are; the source upper-cases chain identifiers only.\<close>
  "upper_char c =
     (let n = (of_char c :: nat)
      in if (97 \<le> n \<and> n \<le> 122) \<or> (224 \<le> n \<and> n \<le> 254 \<and> n \<noteq> 247)
         then char_of (n - 32) else c)"

definition toUpperCase :: "string \<Rightarrow> string" where
  "toUpperCase s = map upper_char s"

definition startsWith :: "string \<Rightarrow> string \<Rightarrow> bool" where
  "startsWith s k = (take (length k) s = k)"

fun str_includes :: "string \<Rightarrow> string \<Rightarrow> bool" where
  \<comment> \<open>\<^verbatim>\<open>s.includes(k)\<close>: \<open>k\<close> occurs in \<open>s\<close> as a contiguous run.\<close>
  "str_includes [] k = (k = [])"
| "str_includes (c # cs) k = (startsWith (c # cs) k \<or> str_includes cs k)"

definition is_hex :: "char \<Rightarrow> bool" where
  \<comment> \<open>the character class \<^verbatim>\<open>[a-fA-F0-9]\<close>\<close>
  "is_hex c = (c \<in> set ''0123456789abcdefABCDEF'')"

definition address_here :: "string \<Rightarrow> bool" where
  \<comment> \<open>the pattern \<^verbatim>\<open>/0x[a-fA-F0-9]{40}/\<close> matches at the start of \<open>s\<close>\<close>
  "address_here s =
     (42 \<le> length s \<and> take 2 s = ''0x'' \<and> list_all is_hex (take 40 (drop 2 s)))"

fun match_address :: "string \<Rightarrow> string option" where
  \<comment> \<open>\<^verbatim>\<open>s.match(/0x[a-fA-F0-9]{40}/)\<close>: \<open>None\<close> is \<^verbatim>\<open>null\<close>, \<open>Some a\<close> is element 0 of
      the match, the leftmost occurrence.\<close>
  "match_address [] = None"
| "match_address (c # cs) =
     (if address_here (c # cs) then Some (take 42 (c # cs)) else match_address cs)"

subsection \<open>The classifier \<^verbatim>\<open>getBlockchainContext\<close>\<close>

datatype ctx_type = Portfolio | Nft | Wallet | Chain | Gas | ChainInfo | General

record "context" =
  needsData :: bool
  ctx_chain :: "string option"
  ctx_type :: ctx_type
  ctx_address :: "string option"
  multiChain :: "bool option"

definition isMultiChain :: "string \<Rightarrow> bool" where
  \<comment> \<open>the constant \<^verbatim>\<open>isMultiChain\<close> of the source, as a function of \<^verbatim>\<open>lowerMessage\<close>\<close>
  "isMultiChain lowerMessage =
     (str_includes lowerMessage ''all chain'' \<or>
      str_includes lowerMessage ''multi-chain'' \<or>
      str_includes lowerMessage ''multi chain'' \<or>
      str_includes lowerMessage ''across all'' \<or>
      str_includes lowerMessage ''every chain'' \<or>
      str_includes lowerMessage ''all networks'' \<or>
      str_includes lowerMessage ''multi'' \<or>
      str_includes lowerMessage ''all chains'')"

definition address_context :: "ctx_type \<Rightarrow> string \<Rightarrow> bool \<Rightarrow> context" where
  \<comment> \<open>the object literal returned by the four branches under the address pattern\<close>
  "address_context t a mc =
     \<lparr>needsData = True, ctx_chain = Some ''ethereum'', ctx_type = t,
      ctx_address = Some a, multiChain = Some mc\<rparr>"

definition chain_context :: "string \<Rightarrow> ctx_type \<Rightarrow> bool \<Rightarrow> context" where
  \<comment> \<open>the object literals without \<^verbatim>\<open>address\<close> and \<^verbatim>\<open>multiChain\<close>\<close>
  "chain_context c t nd =
     \<lparr>needsData = nd, ctx_chain = Some c, ctx_type = t,
      ctx_address = None, multiChain = None\<rparr>"

definition getBlockchainContext :: "string \<Rightarrow> context" where
  "getBlockchainContext message =
     (let lowerMessage = toLowerCase message
      in case match_address lowerMessage of
           Some address \<Rightarrow>
             if str_includes lowerMessage ''portfolio'' \<or> str_includes lowerMessage ''portofolio'' \<or>
                str_includes lowerMessage ''analyze portfolio'' \<or>
                str_includes lowerMessage ''portfolio analysis''
             then address_context Portfolio address
                    (isMultiChain lowerMessage \<or> str_includes lowerMessage ''portfolio'')
             else if str_includes lowerMessage ''nft'' \<or> str_includes lowerMessage ''nft analysis'' \<or>
                str_includes lowerMessage ''nft gallery'' \<or>
                str_includes lowerMessage ''nft collection'' \<or>
                str_includes lowerMessage ''collection''
             then address_context Nft address
                    (isMultiChain lowerMessage \<or> str_includes lowerMessage ''nft'')
             else if str_includes lowerMessage ''wallet'' \<or> str_includes lowerMessage ''balance'' \<or>
                str_includes lowerMessage ''analysis'' \<or> str_includes lowerMessage ''check'' \<or>
                str_includes lowerMessage ''analyze'' \<or>
                str_includes lowerMessage ''wallet analysis''
             then address_context Wallet address
                    (isMultiChain lowerMessage \<or> str_includes lowerMessage ''wallet'')
             else address_context Wallet address (isMultiChain lowerMessage)
         | None \<Rightarrow>
             if str_includes lowerMessage ''ethereum'' \<or> str_includes lowerMessage ''eth''
             then chain_context ''ethereum'' Chain True
             else if str_includes lowerMessage ''polygon'' \<or> str_includes lowerMessage ''matic''
             then chain_context ''polygon'' Chain True
             else if str_includes lowerMessage ''bsc'' \<or> str_includes lowerMessage ''bnb''
             then chain_context ''bsc'' Chain True
             else if str_includes lowerMessage ''arbitrum'' \<or> str_includes lowerMessage ''arb''
             then chain_context ''arbitrum'' Chain True
             else if str_includes lowerMessage ''base''
             then chain_context ''base'' Chain True
             else if str_includes lowerMessage ''optimism'' \<or> str_includes lowerMessage ''op''
             then chain_context ''optimism'' Chain True
             else if str_includes lowerMessage ''gas'' \<or> str_includes lowerMessage ''fee'' \<or>
                str_includes lowerMessage ''gas price'' \<or> str_includes lowerMessage ''gas cost''
             then chain_context ''ethereum'' Gas True
             else if str_includes lowerMessage ''chains'' \<or> str_includes lowerMessage ''chain info'' \<or>
                str_includes lowerMessage ''supported chains'' \<or>
                str_includes lowerMessage ''blockchain info'' \<or> str_includes lowerMessage ''chain''
             then chain_context ''ethereum'' ChainInfo False
             else \<lparr>needsData = False, ctx_chain = None, ctx_type = General,
                   ctx_address = None, multiChain = None\<rparr>)"

subsection \<open>Numbers\<close>

datatype number = Num rat | NaN

definition hex_value :: "char \<Rightarrow> int option" where
  "hex_value c =
     (let n = (of_char c :: int)
      in if 48 \<le> n \<and> n \<le> 57 then Some (n - 48)
         else if 97 \<le> n \<and> n \<le> 102 then Some (n - 87)
         else if 65 \<le> n \<and> n \<le> 70 then Some (n - 55)
         else None)"

fun hex_prefix_value :: "int \<Rightarrow> string \<Rightarrow> int" where
  \<comment> \<open>the value of the longest run of hexadecimal digits at the start of the string\<close>
  "hex_prefix_value acc [] = acc"
| "hex_prefix_value acc (c # cs) =
     (case hex_value c of None \<Rightarrow> acc | Some d \<Rightarrow> hex_prefix_value (16 * acc + d) cs)"

definition is_space :: "char \<Rightarrow> bool" where
  \<comment> \<open>the white space and line terminators of ECMAScript below U+0100\<close>
  "is_space c = ((of_char c :: nat) \<in> {9, 10, 11, 12, 13, 32, 160})"

definition parseInt16 :: "string \<Rightarrow> number" where
  \<comment> \<open>\<^verbatim>\<open>parseInt(input, 16)\<close>: leading white space, a sign and a prefix \<^verbatim>\<open>0x\<close> or
      \<^verbatim>\<open>0X\<close> are skipped, the digits are read up to the first character that is not
      one, and no digit at all gives \<open>NaN\<close>.\<close>
  "parseInt16 input =
     (let s = dropWhile is_space input;
          neg = (take 1 s = ''-'');
          s1 = (if take 1 s = ''-'' \<or> take 1 s = ''+'' then drop 1 s else s);
          s2 = (if take 2 s1 = ''0x'' \<or> take 2 s1 = ''0X'' then drop 2 s1 else s1)
      in case s2 of
           [] \<Rightarrow> NaN
         | c # _ \<Rightarrow>
             (case hex_value c of
                None \<Rightarrow> NaN
              | Some _ \<Rightarrow>
                  Num (if neg then - of_int (hex_prefix_value 0 s2)
                       else of_int (hex_prefix_value 0 s2))))"

definition divide_by :: "number \<Rightarrow> rat \<Rightarrow> number" where
  \<comment> \<open>\<^verbatim>\<open>x / k\<close> for a constant \<open>k\<close> that is not zero\<close>
  "divide_by x k = (case x of NaN \<Rightarrow> NaN | Num q \<Rightarrow> Num (q / k))"

definition Math_round :: "number \<Rightarrow> number" where
  \<comment> \<open>\<^verbatim>\<open>Math.round\<close>: the nearest integer, a tie going up\<close>
  "Math_round x = (case x of NaN \<Rightarrow> NaN | Num q \<Rightarrow> Num (of_int \<lfloor>q + 1 / 2\<rfloor>))"

definition greater_zero :: "number \<Rightarrow> bool" where
  \<comment> \<open>\<^verbatim>\<open>x > 0\<close>, false on \<open>NaN\<close>\<close>
  "greater_zero x = (case x of NaN \<Rightarrow> False | Num q \<Rightarrow> 0 < q)"

definition or_zero :: "number \<Rightarrow> rat" where
  \<comment> \<open>\<^verbatim>\<open>x || 0\<close>: \<open>NaN\<close> and zero are falsy\<close>
  "or_zero x = (case x of NaN \<Rightarrow> 0 | Num q \<Rightarrow> q)"

definition isFinite :: "number \<Rightarrow> bool" where
  "isFinite x = (case x of NaN \<Rightarrow> False | Num _ \<Rightarrow> True)"

definition digit_char :: "int \<Rightarrow> char" where
  "digit_char d = char_of (48 + d)"

function digits :: "int \<Rightarrow> string" where
  \<comment> \<open>the decimal digits of an integer that is not negative\<close>
  "digits n = (if n < 10 then [digit_char n] else digits (n div 10) @ [digit_char (n mod 10)])"
  by pat_completeness auto
termination
  by (relation "measure nat") auto

declare digits.simps [simp del]

definition toFixed :: "nat \<Rightarrow> number \<Rightarrow> string" where
  \<comment> \<open>\<^verbatim>\<open>x.toFixed(f)\<close> for \<open>|x| < 10^21\<close> (from there on JavaScript prints an exponent):
      the integer \<open>n\<close> nearest to \<open>|x| * 10^f\<close>, the larger one on a tie, written with at
      least \<open>f + 1\<close> digits and the point before the last \<open>f\<close>; a minus sign when
      \<open>x < 0\<close>.\<close>
  "toFixed f x =
     (case x of
        NaN \<Rightarrow> ''NaN''
      | Num q \<Rightarrow>
          (let n = \<lfloor>\<bar>q\<bar> * 10 ^ f + 1 / 2\<rfloor>;
               ds = digits n;
               m = replicate (Suc f - length ds) (CHR ''0'') @ ds;
               k = length m - f
           in (if q < 0 then ''-'' else []) @ take k m @
              (if f = 0 then [] else ''.'' @ drop k m)))"

definition is_digit :: "char \<Rightarrow> bool" where
  "is_digit c = (48 \<le> (of_char c :: nat) \<and> (of_char c :: nat) \<le> 57)"

fun decimal_value :: "int \<Rightarrow> string \<Rightarrow> int" where
  "decimal_value acc [] = acc"
| "decimal_value acc (c # cs) = decimal_value (10 * acc + ((of_char c :: int) - 48)) cs"

definition Number_of_string :: "string \<Rightarrow> number" where
  \<comment> \<open>\<^verbatim>\<open>Number(s)\<close> on the strings \<^verbatim>\<open>toFixed\<close> produces: an optional minus sign, digits,
      and optionally a point and digits. Any other string is mapped to \<open>NaN\<close>
      (JavaScript accepts more: exponents, white space, the empty string).\<close>
  "Number_of_string s =
     (let neg = (take 1 s = ''-'');
          u = (if neg then drop 1 s else s);
          ip = takeWhile is_digit u;
          r = dropWhile is_digit u;
          fp = drop 1 r
      in if ip \<noteq> [] \<and> (r = [] \<or> (take 1 r = ''.'' \<and> list_all is_digit fp))
         then let v = of_int (decimal_value 0 ip) + of_int (decimal_value 0 fp) / 10 ^ length fp
              in Num (if neg then - v else v)
         else NaN)"

fun decimal_places :: "nat \<Rightarrow> rat \<Rightarrow> nat" where
  \<comment> \<open>the number of decimal places \<open>q\<close> needs, searched up to the given bound\<close>
  "decimal_places 0 q = 0"
| "decimal_places (Suc k) q =
     (if of_int \<lfloor>q\<rfloor> = q then 0 else Suc (decimal_places k (q * 10)))"

definition JSON_stringify_number :: "number \<Rightarrow> string" where
  \<comment> \<open>how \<^verbatim>\<open>JSON.stringify\<close> prints a number that is zero or a decimal fraction with
      \<open>10^-6 \<le> |x| < 10^21\<close>: the shortest decimal numeral that denotes it, without
      trailing zeros. \<open>NaN\<close> is printed as \<^verbatim>\<open>null\<close>.\<close>
  "JSON_stringify_number x =
     (case x of NaN \<Rightarrow> ''null'' | Num q \<Rightarrow> toFixed (decimal_places 20 q) (Num q))"

subsection \<open>The chain catalogue and the two conversions\<close>

record chain_config =
  name :: string
  symbol :: string
  decimals :: nat
  apiName :: string

definition CHAIN_CONFIGS :: "(string \<times> chain_config) list" where
  \<comment> \<open>the object \<^verbatim>\<open>CHAIN_CONFIGS\<close> as the list of its own properties, in order;
      \<^verbatim>\<open>CHAIN_CONFIGS[chain]\<close> is \<open>map_of CHAIN_CONFIGS chain\<close>, \<open>None\<close> being \<^verbatim>\<open>undefined\<close>
      (names inherited from \<^verbatim>\<open>Object.prototype\<close> are not chain identifiers and are not
      modelled)\<close>
  "CHAIN_CONFIGS =
     [(''ethereum'', \<lparr>name = ''Ethereum'', symbol = ''ETH'', decimals = 18, apiName = ''ETH''\<rparr>),
      (''polygon'', \<lparr>name = ''Polygon'', symbol = ''MATIC'', decimals = 18, apiName = ''MATIC''\<rparr>),
      (''bsc'', \<lparr>name = ''BNB Smart Chain'', symbol = ''BNB'', decimals = 18, apiName = ''BSC''\<rparr>),
      (''arbitrum'', \<lparr>name = ''Arbitrum'', symbol = ''ETH'', decimals = 18, apiName = ''ETH''\<rparr>),
      (''base'', \<lparr>name = ''Base'', symbol = ''ETH'', decimals = 18, apiName = ''ETH''\<rparr>),
      (''optimism'', \<lparr>name = ''Optimism'', symbol = ''ETH'', decimals = 18, apiName = ''ETH''\<rparr>)]"

datatype js_value = Obj "string option" | Nullish
  \<comment> \<open>a thrown value or a rejection reason: \<open>Obj m\<close> is any value on which the property
      \<^verbatim>\<open>message\<close> can be read, \<open>m\<close> being that property (\<open>None\<close> for \<^verbatim>\<open>undefined\<close>);
      \<open>Nullish\<close> is \<^verbatim>\<open>null\<close> or \<^verbatim>\<open>undefined\<close>, on which the read throws a
      \<^verbatim>\<open>TypeError\<close>.\<close>

datatype 'a axios = Replied 'a | Failed js_value
  \<comment> \<open>an awaited axios call: the field \<^verbatim>\<open>data.result\<close> of the response, or the reason of
      the rejection\<close>

definition TypeError_undefined :: "string \<Rightarrow> string" where
  \<comment> \<open>the message of the \<^verbatim>\<open>TypeError\<close> for a property read on \<^verbatim>\<open>undefined\<close> (V8's
      wording). For a read on \<^verbatim>\<open>null\<close> V8 writes \<^verbatim>\<open>of null\<close> in place of \<^verbatim>\<open>of undefined\<close>;
      \<open>Nullish\<close> does not tell the two apart, so the text is the one for \<^verbatim>\<open>undefined\<close>
      in both cases.\<close>
  "TypeError_undefined p =
     ''Cannot read properties of undefined (reading '' @ [CHR 39] @ p @ [CHR 39] @ '')''"

definition TypeError :: "string \<Rightarrow> js_value" where
  \<comment> \<open>the error object thrown by a property read on \<^verbatim>\<open>null\<close> or \<^verbatim>\<open>undefined\<close>\<close>
  "TypeError p = Obj (Some (TypeError_undefined p))"

definition orElse :: "string option \<Rightarrow> string \<Rightarrow> string" where
  \<comment> \<open>\<^verbatim>\<open>x || d\<close> on a string that may be undefined: the empty string is falsy too\<close>
  "orElse x d = (case x of None \<Rightarrow> d | Some v \<Rightarrow> if v = [] then d else v)"

definition balanceInEth :: "string \<Rightarrow> string option \<Rightarrow> string + string" where
  \<comment> \<open>lines 133 and 149-150 of the route \<^verbatim>\<open>/api/wallet/:address\<close>: \<open>Inl\<close> is the answer
      400 for an unknown chain, \<open>Inr\<close> the field \<^verbatim>\<open>balance.balance\<close>\<close>
  "balanceInEth chain result =
     (case map_of CHAIN_CONFIGS chain of
        None \<Rightarrow> Inl ''Unsupported chain''
      | Some cfg \<Rightarrow>
          (let balance = orElse result ''0''
           in Inr (toFixed 6 (divide_by (parseInt16 balance) (10 ^ decimals cfg)))))"

definition getGasPrice :: "string \<Rightarrow> string option axios \<Rightarrow> number" where
  \<comment> \<open>the function \<^verbatim>\<open>getGasPrice\<close>: every failure inside its \<^verbatim>\<open>try\<close> returns 0. An absent
      \<^verbatim>\<open>result\<close> is parsed as the string \<^verbatim>\<open>undefined\<close>, which has no digit.\<close>
  "getGasPrice chain rpc =
     (case map_of CHAIN_CONFIGS chain of
        None \<Rightarrow> Num 0
      | Some cfg \<Rightarrow>
          (case rpc of
             Failed m \<Rightarrow> Num 0
           | Replied result \<Rightarrow>
               (let gasPriceWei = parseInt16 (case result of None \<Rightarrow> ''undefined'' | Some r \<Rightarrow> r);
                    gasPriceGwei = Math_round (divide_by gasPriceWei 1000000000)
                in gasPriceGwei)))"

subsection \<open>The supervisor \<^verbatim>\<open>GeminiMCPServer\<close>\<close>

text \<open>
  The fields of \<^verbatim>\<open>this\<close>, followed by the two pieces of the runtime the timer functions
  work on: the handles of the intervals the event loop still fires, and the next fresh
  handle. \<^verbatim>\<open>geminiModel\<close> is either \<^verbatim>\<open>null\<close> or the client object \<^verbatim>\<open>genAI\<close>, so the
  field records which. A handle of \<^verbatim>\<open>setInterval\<close> is an object, hence truthy.
\<close>

record state =
  isConnected :: bool
  geminiModel :: bool
  requestId :: nat
  retryCount :: nat
  maxRetries :: nat
  healthCheckInterval :: "nat option"
  fallbackMode :: bool
  connectionAttempts :: nat
  maxConnectionAttempts :: nat
  lastError :: "string option"
  intervals :: "nat list"
  nextHandle :: nat

definition constructor :: state where
  "constructor =
     \<lparr>isConnected = False, geminiModel = False, requestId = 0, retryCount = 0,
      maxRetries = 3, healthCheckInterval = None, fallbackMode = False,
      connectionAttempts = 0, maxConnectionAttempts = 20, lastError = None,
      intervals = [], nextHandle = 0\<rparr>"

datatype gen_result = GenResponse "string option" | GenNullish
  \<comment> \<open>what \<^verbatim>\<open>generateContent\<close> resolves to: a response object with its \<^verbatim>\<open>text\<close>, or
      \<^verbatim>\<open>null\<close>/\<^verbatim>\<open>undefined\<close>\<close>

datatype 'a settled = Resolved 'a | Rejected js_value

type_synonym 'a outcome = "(js_value \<times> state) + ('a \<times> state)"

definition message_text :: "string option \<Rightarrow> string" where
  \<comment> \<open>the operand \<^verbatim>\<open>e.message\<close> of a string concatenation\<close>
  "message_text m = (case m of None \<Rightarrow> ''undefined'' | Some t \<Rightarrow> t)"

definition try_catch ::
  "(state \<Rightarrow> 'a outcome) \<Rightarrow> (js_value \<Rightarrow> state \<Rightarrow> 'a outcome) \<Rightarrow> state \<Rightarrow> 'a outcome" where
  "try_catch body handler s =
     (case body s of Inl (e, s') \<Rightarrow> handler e s' | Inr r \<Rightarrow> Inr r)"

definition clearInterval :: "nat \<Rightarrow> state \<Rightarrow> state" where
  "clearInterval h s = s\<lparr>intervals := removeAll h (intervals s)\<rparr>"

definition setInterval :: "state \<Rightarrow> nat \<times> state" where
  "setInterval s =
     (nextHandle s, s\<lparr>intervals := intervals s @ [nextHandle s], nextHandle := Suc (nextHandle s)\<rparr>)"

definition stopHealthCheck :: "state \<Rightarrow> state" where
  "stopHealthCheck s =
     (case healthCheckInterval s of
        Some h \<Rightarrow> (clearInterval h s)\<lparr>healthCheckInterval := None\<rparr>
      | None \<Rightarrow> s)"

definition startHealthCheck :: "state \<Rightarrow> state" where
  "startHealthCheck s =
     (let s1 = stopHealthCheck s;
          (h, s2) = setInterval s1
      in s2\<lparr>healthCheckInterval := Some h\<rparr>)"

definition enableFallbackMode :: "string \<Rightarrow> state \<Rightarrow> state" where
  "enableFallbackMode reason s =
     s\<lparr>fallbackMode := True, isConnected := False, lastError := Some reason\<rparr>"

definition start_begin :: "state \<Rightarrow> state" where
  \<comment> \<open>lines 229-240: what \<^verbatim>\<open>start\<close> does before it waits for the test request\<close>
  "start_begin s = s\<lparr>geminiModel := True\<rparr>"

definition start_inner_try :: "gen_result settled \<Rightarrow> state \<Rightarrow> bool outcome" where
  \<comment> \<open>lines 237-248, from the point where the test request has settled as \<open>probe\<close>.
      Reading \<^verbatim>\<open>testResult.text\<close> throws when the request resolved to no object.\<close>
  "start_inner_try probe s =
     (case probe of
        Rejected e \<Rightarrow> Inl (e, s)
      | Resolved GenNullish \<Rightarrow> Inl (TypeError ''text'', s)
      | Resolved (GenResponse t) \<Rightarrow>
          Inr (True, startHealthCheck
                       (s\<lparr>isConnected := True, fallbackMode := False, retryCount := 0\<rparr>)))"

definition start_inner_catch :: "js_value \<Rightarrow> state \<Rightarrow> bool outcome" where
  \<comment> \<open>lines 250-255\<close>
  "start_inner_catch geminiError s =
     (case geminiError of
        Nullish \<Rightarrow> Inl (TypeError ''message'', s)
      | Obj m \<Rightarrow>
          Inr (False, enableFallbackMode (''Gemini initialization failed: '' @ message_text m) s))"

definition start_outer_catch :: "js_value \<Rightarrow> state \<Rightarrow> bool outcome" where
  \<comment> \<open>lines 257-262\<close>
  "start_outer_catch error s =
     (case error of
        Nullish \<Rightarrow> Inl (TypeError ''message'', s)
      | Obj m \<Rightarrow> Inr (False, enableFallbackMode (''Startup failed: '' @ message_text m) s))"

definition start_settle :: "gen_result settled \<Rightarrow> state \<Rightarrow> bool outcome" where
  \<comment> \<open>the rest of \<^verbatim>\<open>start\<close> once the test request has settled, inside the two nested
      \<^verbatim>\<open>try\<close> blocks\<close>
  "start_settle probe =
     try_catch (try_catch (start_inner_try probe) start_inner_catch) start_outer_catch"

definition start :: "gen_result settled \<Rightarrow> state \<Rightarrow> bool outcome" where
  "start probe s = start_settle probe (start_begin s)"

definition restart_begin :: "state \<Rightarrow> state" where
  \<comment> \<open>lines 309-311\<close>
  "restart_begin s =
     (let s1 = stopHealthCheck s
      in s1\<lparr>isConnected := False, retryCount := 0\<rparr>)"

definition restart :: "gen_result settled \<Rightarrow> state \<Rightarrow> bool outcome" where
  "restart probe s = start probe (restart_begin s)"

record status =
  status_isConnected :: bool
  status_fallbackMode :: bool
  status_lastError :: "string option"
  status_retryCount :: nat
  status_maxRetries :: nat
  hasGeminiModel :: bool
  status_connectionAttempts :: nat
  status_maxConnectionAttempts :: nat

definition getStatus :: "state \<Rightarrow> status" where
  "getStatus s =
     \<lparr>status_isConnected = isConnected s, status_fallbackMode = fallbackMode s,
      status_lastError = lastError s, status_retryCount = retryCount s,
      status_maxRetries = maxRetries s, hasGeminiModel = geminiModel s,
      status_connectionAttempts = connectionAttempts s,
      status_maxConnectionAttempts = maxConnectionAttempts s\<rparr>"

definition healthCheckSettle :: "gen_result settled \<Rightarrow> state \<Rightarrow> state" where
  \<comment> \<open>the callbacks \<^verbatim>\<open>then\<close> and \<^verbatim>\<open>catch\<close> of lines 274-281, run when the health request
      has settled. When the rejection reason is \<^verbatim>\<open>null\<close> or \<^verbatim>\<open>undefined\<close>, reading its
      \<^verbatim>\<open>message\<close> for the log of line 278 throws inside the \<^verbatim>\<open>catch\<close> callback, before
      line 279 clears \<^verbatim>\<open>isConnected\<close>: the fields are as they were, and that rejection
      stays inside the promise chain.\<close>
  "healthCheckSettle probe s =
     (case probe of
        Resolved r \<Rightarrow> s
      | Rejected error \<Rightarrow>
          (case error of
             Nullish \<Rightarrow> s
           | Obj m \<Rightarrow>
               (let s1 = s\<lparr>isConnected := False\<rparr>
                in enableFallbackMode (''Health check failed: '' @ message_text m) s1)))"

definition healthCheckTick :: "gen_result settled \<Rightarrow> state \<Rightarrow> state" where
  \<comment> \<open>one firing of the interval callback of lines 267-283, taken together with the
      settling of its request\<close>
  "healthCheckTick probe s = (if geminiModel s then healthCheckSettle probe s else s)"

subsection \<open>Answering a chat message: \<^verbatim>\<open>getAIResponse\<close>\<close>

text \<open>
  The texts the source returns are template literals with pictographs outside the 8-bit
  range; a \<open>reply\<close> names the template and carries the values interpolated into it.
\<close>

datatype reply =
    GasEstimate string number
  | GasUnavailable string
  | SupportedChains string
  | SystemStatus bool bool
  | McpStatus bool bool string
  | RestartSucceeded
  | RestartFailed
  | FallbackActivated
  | ModelText "string option"
  | FallbackHelp
  | FallbackChains
  | FallbackStatus
  | FallbackDefault string

record env =
  gasRpc :: "string \<Rightarrow> string option axios"
  restartProbe :: "gen_result settled"
  generate :: "gen_result settled"

definition getFallbackResponse :: "string \<Rightarrow> reply" where
  "getFallbackResponse message =
     (let lowerMessage = toLowerCase message
      in if str_includes lowerMessage ''help'' \<or> str_includes lowerMessage ''what can you do''
         then FallbackHelp
         else if str_includes lowerMessage ''supported'' \<or> str_includes lowerMessage ''chains'' \<or>
                 str_includes lowerMessage ''networks''
         then FallbackChains
         else if str_includes lowerMessage ''status'' \<or> str_includes lowerMessage ''health''
         then FallbackStatus
         else FallbackDefault message)"

definition getGeminiResponse :: "env \<Rightarrow> string \<Rightarrow> reply" where
  \<comment> \<open>lines 474-527. The wallet fetch and its summary go into the prompt only; the
      prompt is the argument of the external request, whose outcome is \<open>generate env\<close>.
      Every failure inside the \<^verbatim>\<open>try\<close> ends in the canned answer.\<close>
  "getGeminiResponse e message =
     (case generate e of
        Resolved (GenResponse t) \<Rightarrow> ModelText t
      | Resolved GenNullish \<Rightarrow> getFallbackResponse message
      | Rejected error \<Rightarrow> getFallbackResponse message)"

definition join_comma :: "string list \<Rightarrow> string" where
  \<comment> \<open>\<^verbatim>\<open>xs.join(', ')\<close>\<close>
  "join_comma xs = (case xs of [] \<Rightarrow> [] | x # r \<Rightarrow> foldl (\<lambda>acc y. acc @ '', '' @ y) x r)"

definition getAIResponse :: "env \<Rightarrow> string \<Rightarrow> state \<Rightarrow> reply \<times> state" where
  "getAIResponse e message s =
     (let lower = toLowerCase message;
          context = getBlockchainContext message
      in if ctx_type context = Gas
         then (let chain = orElse (ctx_chain context) ''ethereum'';
                   gwei = getGasPrice chain (gasRpc e chain)
               in if greater_zero gwei then (GasEstimate (toUpperCase chain) gwei, s)
                  else (GasUnavailable (toUpperCase chain), s))
         else if ctx_type context = ChainInfo
         then (SupportedChains
                 (join_comma (map (\<lambda>(id, c). name c @ '' ('' @ symbol c @ '')'') CHAIN_CONFIGS)), s)
         else if str_includes lower ''system status''
         then (SystemStatus (status_isConnected (getStatus s)) (status_fallbackMode (getStatus s)), s)
         else if str_includes lower ''mcp status''
         then (McpStatus (status_isConnected (getStatus s)) (status_fallbackMode (getStatus s))
                 (orElse (status_lastError (getStatus s)) ''none''), s)
         else if str_includes lower ''restart mcp''
         then (case restart (restartProbe e) s of
                 Inr (ok, s') \<Rightarrow> (if ok then RestartSucceeded else RestartFailed, s')
               | Inl (err, s') \<Rightarrow> (RestartFailed, s'))
         else if str_includes lower ''force fallback''
         then (FallbackActivated, enableFallbackMode ''Forced via chat command'' s)
         else if geminiModel s \<and> isConnected s
         then (getGeminiResponse e message, s)
         else (getFallbackResponse message, s))"

subsection \<open>Runs of the supervisor\<close>

text \<open>
  The supervisor is one object shared by all requests and by the interval callback. A
  \<open>call\<close> is either a whole method call, run from its entry to its return with the
  outcome of the request it waits for, or one of the pieces into which the event loop
  cuts an asynchronous method at its \<^verbatim>\<open>await\<close>: the part of \<^verbatim>\<open>start\<close> and of \<^verbatim>\<open>restart\<close>
  before the test request is awaited, the part of \<^verbatim>\<open>start\<close> after it has settled, and
  the settling of a health request. Between two pieces other calls may run, so a run of
  the supervisor is any sequence of calls. (The pieces may also occur where the program
  would not run them, for instance a settling with no request under way: the runs of
  the model include those of the program.)
\<close>

datatype call =
    Start "gen_result settled"
  | StartHealthCheck
  | Tick "gen_result settled"
  | EnableFallbackMode string
  | StopHealthCheck
  | Restart "gen_result settled"
  | GetStatus
  | GetAIResponse env string
  | BeginStart
  | BeginRestart
  | SettleStart "gen_result settled"
  | SettleTick "gen_result settled"

definition exec :: "call \<Rightarrow> state \<Rightarrow> (js_value \<times> state) + state" where
  \<comment> \<open>one call on the supervisor; a tick of the health check happens only while an
      interval is scheduled. \<open>Inl\<close> is a call that throws.\<close>
  "exec c s =
     (case c of
        Start p \<Rightarrow> map_sum id snd (start p s)
      | StartHealthCheck \<Rightarrow> Inr (startHealthCheck s)
      | Tick p \<Rightarrow> Inr (if intervals s = [] then s else healthCheckTick p s)
      | EnableFallbackMode reason \<Rightarrow> Inr (enableFallbackMode reason s)
      | StopHealthCheck \<Rightarrow> Inr (stopHealthCheck s)
      | Restart p \<Rightarrow> map_sum id snd (restart p s)
      | GetStatus \<Rightarrow> Inr s
      | GetAIResponse e message \<Rightarrow> Inr (snd (getAIResponse e message s))
      | BeginStart \<Rightarrow> Inr (start_begin s)
      | BeginRestart \<Rightarrow> Inr (start_begin (restart_begin s))
      | SettleStart p \<Rightarrow> map_sum id snd (start_settle p s)
      | SettleTick p \<Rightarrow> Inr (healthCheckSettle p s))"

fun run :: "call list \<Rightarrow> state \<Rightarrow> (js_value \<times> state) + state" where
  \<comment> \<open>a sequence of calls; it ends at the first call that throws\<close>
  "run [] s = Inr s"
| "run (c # cs) s = (case exec c s of Inl err \<Rightarrow> Inl err | Inr s' \<Rightarrow> run cs s')"

subsection \<open>The wallet context: \<^verbatim>\<open>fetchWalletContext\<close> and \<^verbatim>\<open>summarizeWalletCounts\<close>\<close>

type_synonym token = string

record native_balance =
  wei :: rat
  native_symbol :: string

record chain_entry =
  entry_chain :: string
  entry_native :: "native_balance option"
  entry_tokens :: "token list option"
  entry_error :: "string option option"

record fetched =
  fetched_address :: string
  fetched_chains :: "chain_entry list option"
  fetched_error :: "string option option"

text \<open>
  A property that an object literal does not have is \<open>None\<close>. The property \<^verbatim>\<open>error\<close> holds
  the \<^verbatim>\<open>message\<close> of the caught value, which may be \<^verbatim>\<open>undefined\<close>: \<open>Some None\<close>.
\<close>

record wallet_env =
  nativeResp :: "string \<Rightarrow> string option axios"
  tokenResp :: "string \<Rightarrow> token list option axios"

definition error_entry :: "string \<Rightarrow> string option \<Rightarrow> chain_entry" where
  \<comment> \<open>the object \<^verbatim>\<open>{ chain, error: e.message }\<close>\<close>
  "error_entry chain m =
     \<lparr>entry_chain = chain, entry_native = None, entry_tokens = None, entry_error = Some m\<rparr>"

definition fetch_chain_try :: "wallet_env \<Rightarrow> string \<Rightarrow> js_value + chain_entry" where
  \<comment> \<open>the \<^verbatim>\<open>try\<close> block of lines 411-443 for one chain. It throws when \<^verbatim>\<open>apiName\<close> is read
      on an unknown chain and when the balance request is rejected; a rejected token
      request is replaced by an empty list (line 434).\<close>
  "fetch_chain_try w chain =
     (case map_of CHAIN_CONFIGS chain of
        None \<Rightarrow> Inl (TypeError ''apiName'')
      | Some cfg \<Rightarrow>
          (case nativeResp w chain of
             Failed e \<Rightarrow> Inl e
           | Replied result \<Rightarrow>
               (let nativeHex = orElse result ''0x0'';
                    nativeWei = or_zero (parseInt16 nativeHex);
                    tokens = (case tokenResp w chain of
                                Failed e \<Rightarrow> []
                              | Replied None \<Rightarrow> []
                              | Replied (Some ts) \<Rightarrow> ts)
                in Inr \<lparr>entry_chain = chain,
                        entry_native =
                          Some \<lparr>wei = nativeWei,
                                native_symbol =
                                  (if symbol cfg = [] then toUpperCase chain else symbol cfg)\<rparr>,
                        entry_tokens = Some tokens, entry_error = None\<rparr>)))"

definition fetch_chain_catch :: "string \<Rightarrow> js_value \<Rightarrow> js_value + chain_entry" where
  \<comment> \<open>the \<^verbatim>\<open>catch\<close> block of lines 444-446; reading \<^verbatim>\<open>e.message\<close> throws when \<^verbatim>\<open>e\<close> is
      \<^verbatim>\<open>null\<close> or \<^verbatim>\<open>undefined\<close>\<close>
  "fetch_chain_catch chain e =
     (case e of
        Nullish \<Rightarrow> Inl (TypeError ''message'')
      | Obj m \<Rightarrow> Inr (error_entry chain m))"

definition fetch_chain :: "wallet_env \<Rightarrow> string \<Rightarrow> js_value + chain_entry" where
  \<comment> \<open>the body of the loop: the entry that is pushed, or what the \<^verbatim>\<open>catch\<close> block throws\<close>
  "fetch_chain w chain =
     (case fetch_chain_try w chain of
        Inl e \<Rightarrow> fetch_chain_catch chain e
      | Inr entry \<Rightarrow> Inr entry)"

fun fetch_loop ::
  "wallet_env \<Rightarrow> string list \<Rightarrow> chain_entry list \<Rightarrow> js_value + chain_entry list" where
  \<comment> \<open>\<^verbatim>\<open>for (const chain of chains) { ... results.push(...) }\<close>; a throw leaves the loop\<close>
  "fetch_loop w [] results = Inr results"
| "fetch_loop w (chain # rest) results =
     (case fetch_chain w chain of
        Inl e \<Rightarrow> Inl e
      | Inr entry \<Rightarrow> fetch_loop w rest (results @ [entry]))"

definition fetchWalletContext :: "wallet_env \<Rightarrow> string \<Rightarrow> string list \<Rightarrow> js_value + fetched" where
  \<comment> \<open>lines 396-453: the loop inside the outer \<^verbatim>\<open>try\<close>, whose \<^verbatim>\<open>catch\<close> returns
      \<^verbatim>\<open>{ address, error: error.message }\<close>\<close>
  "fetchWalletContext w address chain_ids =
     (case fetch_loop w chain_ids [] of
        Inr results \<Rightarrow>
          Inr \<lparr>fetched_address = address, fetched_chains = Some results, fetched_error = None\<rparr>
      | Inl error \<Rightarrow>
          (case error of
             Nullish \<Rightarrow> Inl (TypeError ''message'')
           | Obj m \<Rightarrow>
               Inr \<lparr>fetched_address = address, fetched_chains = None, fetched_error = Some m\<rparr>))"

definition six_chains :: "string list" where
  \<comment> \<open>the list of line 486\<close>
  "six_chains = [''ethereum'', ''polygon'', ''bsc'', ''arbitrum'', ''base'', ''optimism'']"

record summary_entry =
  nativeSymbol :: string
  nativeApprox :: number
  tokenCount :: nat

datatype summary =
    NoData
  | Summary (summary_address: string) (summary_chains: "(string \<times> summary_entry) list")

fun assign :: "'k \<Rightarrow> 'v \<Rightarrow> ('k \<times> 'v) list \<Rightarrow> ('k \<times> 'v) list" where
  \<comment> \<open>\<^verbatim>\<open>obj[k] = v\<close> on an object kept as the list of its properties\<close>
  "assign k v [] = [(k, v)]"
| "assign k v ((k', v') # r) = (if k' = k then (k, v) # r else (k', v') # assign k v r)"

definition summarize_entry :: "chain_entry \<Rightarrow> summary_entry" where
  \<comment> \<open>lines 462-469\<close>
  "summarize_entry c =
     (let tokenCount = (case entry_tokens c of Some ts \<Rightarrow> length ts | None \<Rightarrow> 0);
          nativeFloat = (case entry_native c of
                           Some n \<Rightarrow> Num (wei n / 1000000000000000000)
                         | None \<Rightarrow> Num 0)
      in \<lparr>nativeSymbol =
            (case entry_native c of
               Some n \<Rightarrow> if native_symbol n = [] then toUpperCase (entry_chain c)
                         else native_symbol n
             | None \<Rightarrow> toUpperCase (entry_chain c)),
          nativeApprox =
            (if isFinite nativeFloat then Number_of_string (toFixed 6 nativeFloat) else Num 0),
          tokenCount = tokenCount\<rparr>)"

fun summarize_loop ::
  "chain_entry list \<Rightarrow> (string \<times> summary_entry) list \<Rightarrow> (string \<times> summary_entry) list" where
  \<comment> \<open>the loop of lines 460-470; an entry whose \<^verbatim>\<open>chain\<close> is falsy is skipped\<close>
  "summarize_loop [] props = props"
| "summarize_loop (c # cs) props =
     (if entry_chain c = [] then summarize_loop cs props
      else summarize_loop cs (assign (entry_chain c) (summarize_entry c) props))"

definition summarizeWalletCounts :: "fetched \<Rightarrow> summary" where
  "summarizeWalletCounts f =
     (case fetched_chains f of
        None \<Rightarrow> NoData
      | Some cs \<Rightarrow> Summary (fetched_address f) (summarize_loop cs []))"

subsection \<open>Predicates and sample inputs of the statements\<close>

definition timers_ok :: "state \<Rightarrow> bool" where
  \<comment> \<open>the scheduled intervals are exactly the one whose handle the supervisor holds, and
      every scheduled handle was issued before\<close>
  "timers_ok s =
     (intervals s = (case healthCheckInterval s of None \<Rightarrow> [] | Some h \<Rightarrow> [h]) \<and>
      list_all (\<lambda>h. h < nextHandle s) (intervals s))"

definition flags_ok :: "state \<Rightarrow> bool" where
  "flags_ok s = (\<not> (isConnected s \<and> fallbackMode s))"

definition probe_ok :: "gen_result settled \<Rightarrow> bool" where
  \<comment> \<open>the test request resolved to a response object\<close>
  "probe_ok p = (case p of Resolved (GenResponse t) \<Rightarrow> True | _ \<Rightarrow> False)"

definition failure_reason :: "gen_result settled \<Rightarrow> string" where
  \<comment> \<open>the reason \<^verbatim>\<open>start\<close> hands to \<^verbatim>\<open>enableFallbackMode\<close> when the probe fails\<close>
  "failure_reason p =
     (case p of
        Rejected (Obj m) \<Rightarrow> ''Gemini initialization failed: '' @ message_text m
      | Rejected Nullish \<Rightarrow> ''Startup failed: '' @ TypeError_undefined ''message''
      | Resolved r \<Rightarrow> ''Gemini initialization failed: '' @ TypeError_undefined ''text'')"

definition may_leave_fallback :: "call \<Rightarrow> bool" where
  \<comment> \<open>the call is a \<^verbatim>\<open>start\<close> whose probe succeeds: made directly, through \<^verbatim>\<open>restart\<close>, or
      through the chat command that restarts the server\<close>
  "may_leave_fallback c =
     (case c of
        Start p \<Rightarrow> probe_ok p
      | Restart p \<Rightarrow> probe_ok p
      | SettleStart p \<Rightarrow> probe_ok p
      | GetAIResponse e message \<Rightarrow>
          str_includes (toLowerCase message) ''restart mcp'' \<and> probe_ok (restartProbe e)
      | _ \<Rightarrow> False)"

definition sample_env :: env where
  "sample_env =
     \<lparr>gasRpc = (\<lambda>c. Replied (Some ''0x9c7652400'')),
      restartProbe = Rejected (Obj (Some ''quota exceeded'')),
      generate = Resolved (GenResponse (Some ''ok''))\<rparr>"

definition entry_ok :: "chain_entry \<Rightarrow> bool" where
  \<comment> \<open>a successful per-chain entry: balance and token list, and no \<^verbatim>\<open>error\<close>\<close>
  "entry_ok c = (entry_native c \<noteq> None \<and> entry_tokens c \<noteq> None \<and> entry_error c = None)"

definition zero_summary :: "string \<Rightarrow> summary_entry" where
  "zero_summary s = \<lparr>nativeSymbol = s, nativeApprox = Num 0, tokenCount = 0\<rparr>"

definition sample_wallet :: wallet_env where
  \<comment> \<open>the balance request of \<^verbatim>\<open>bsc\<close> times out; every other chain holds 1.5 units and
      two tokens\<close>
  "sample_wallet =
     \<lparr>nativeResp = (\<lambda>c. if c = ''bsc'' then Failed (Obj (Some ''timeout of 10000ms exceeded''))
                         else Replied (Some ''0x14d1120d7b160000'')),
      tokenResp = (\<lambda>c. Replied (Some [''USDC'', ''DAI'']))\<rparr>"

definition failing_wallet :: wallet_env where
  \<comment> \<open>every balance request is rejected\<close>
  "failing_wallet =
     \<lparr>nativeResp = (\<lambda>c. Failed (Obj (Some ''Request failed with status code 500''))),
      tokenResp = (\<lambda>c. Replied (Some []))\<rparr>"

definition empty_wallet :: wallet_env where
  \<comment> \<open>every chain answers a zero balance and no tokens\<close>
  "empty_wallet =
     \<lparr>nativeResp = (\<lambda>c. Replied (Some ''0x0'')), tokenResp = (\<lambda>c. Replied (Some []))\<rparr>"

definition funded_wallet :: wallet_env where
  \<comment> \<open>every chain answers 1500000000000000000 wei and no tokens\<close>
  "funded_wallet =
     \<lparr>nativeResp = (\<lambda>c. Replied (Some ''0x14d1120d7b160000'')),
      tokenResp = (\<lambda>c. Replied (Some []))\<rparr>"

section \<open>The supervisor\<close>

lemma start_settle_eq:
  "start_settle p s =
     Inr (if probe_ok p
          then (True, startHealthCheck
                        (s\<lparr>isConnected := True, fallbackMode := False, retryCount := 0\<rparr>))
          else (False, enableFallbackMode (failure_reason p) s))"
  by (simp add: start_settle_def try_catch_def start_inner_try_def start_inner_catch_def
      start_outer_catch_def TypeError_def probe_ok_def failure_reason_def message_text_def
      split: settled.split gen_result.split js_value.split)

lemma start_eq:
  "start p s =
     Inr (if probe_ok p
          then (True, startHealthCheck
                        (s\<lparr>geminiModel := True, isConnected := True, fallbackMode := False,
                           retryCount := 0\<rparr>))
          else (False, enableFallbackMode (failure_reason p) (s\<lparr>geminiModel := True\<rparr>)))"
  by (simp add: start_def start_begin_def start_settle_eq)

lemma probe_ok_simps [simp]:
  "probe_ok (Resolved (GenResponse t))"
  "\<not> probe_ok (Resolved GenNullish)"
  "\<not> probe_ok (Rejected e)"
  by (simp_all add: probe_ok_def)

lemma failure_reason_nonempty: "failure_reason p \<noteq> []"
  by (simp add: failure_reason_def split: settled.split js_value.split)

lemma stopHealthCheck_timers:
  "timers_ok s \<Longrightarrow> intervals (stopHealthCheck s) = [] \<and> healthCheckInterval (stopHealthCheck s) = None
     \<and> nextHandle (stopHealthCheck s) = nextHandle s"
  by (auto simp: timers_ok_def stopHealthCheck_def clearInterval_def split: option.splits)

lemma stopHealthCheck_flags [simp]:
  "isConnected (stopHealthCheck s) = isConnected s"
  "fallbackMode (stopHealthCheck s) = fallbackMode s"
  "lastError (stopHealthCheck s) = lastError s"
  "geminiModel (stopHealthCheck s) = geminiModel s"
  by (simp_all add: stopHealthCheck_def clearInterval_def split: option.splits)

lemma startHealthCheck_flags [simp]:
  "isConnected (startHealthCheck s) = isConnected s"
  "fallbackMode (startHealthCheck s) = fallbackMode s"
  "lastError (startHealthCheck s) = lastError s"
  "geminiModel (startHealthCheck s) = geminiModel s"
  by (simp_all add: startHealthCheck_def setInterval_def Let_def)

lemma startHealthCheck_timers:
  assumes "timers_ok s"
  shows "intervals (startHealthCheck s) = [nextHandle s] \<and>
     healthCheckInterval (startHealthCheck s) = Some (nextHandle s) \<and>
     nextHandle (startHealthCheck s) = Suc (nextHandle s)"
  using stopHealthCheck_timers [OF assms]
  by (simp add: startHealthCheck_def setInterval_def Let_def)

lemma timers_ok_stop:
  assumes "timers_ok s"
  shows "timers_ok (stopHealthCheck s)"
  using stopHealthCheck_timers [OF assms] by (simp add: timers_ok_def)

lemma timers_ok_startHealthCheck:
  assumes "timers_ok s"
  shows "timers_ok (startHealthCheck s)"
  using startHealthCheck_timers [OF assms] by (simp add: timers_ok_def)

lemma timers_ok_fields:
  "intervals s' = intervals s \<Longrightarrow> healthCheckInterval s' = healthCheckInterval s \<Longrightarrow>
   nextHandle s' = nextHandle s \<Longrightarrow> timers_ok s' = timers_ok s"
  by (simp add: timers_ok_def)

lemma enableFallbackMode_fields [simp]:
  "intervals (enableFallbackMode r s) = intervals s"
  "healthCheckInterval (enableFallbackMode r s) = healthCheckInterval s"
  "nextHandle (enableFallbackMode r s) = nextHandle s"
  "fallbackMode (enableFallbackMode r s)"
  "\<not> isConnected (enableFallbackMode r s)"
  "lastError (enableFallbackMode r s) = Some r"
  "geminiModel (enableFallbackMode r s) = geminiModel s"
  by (simp_all add: enableFallbackMode_def)

lemma timers_ok_enableFallbackMode [simp]: "timers_ok (enableFallbackMode r s) = timers_ok s"
  by (rule timers_ok_fields) simp_all

lemma healthCheckSettle_fields [simp]:
  "intervals (healthCheckSettle p s) = intervals s"
  "healthCheckInterval (healthCheckSettle p s) = healthCheckInterval s"
  "nextHandle (healthCheckSettle p s) = nextHandle s"
  by (simp_all add: healthCheckSettle_def Let_def split: settled.split js_value.split)

lemma healthCheckSettle_flags:
  "flags_ok s \<Longrightarrow> flags_ok (healthCheckSettle p s)"
  "fallbackMode s \<Longrightarrow> fallbackMode (healthCheckSettle p s)"
  by (simp_all add: healthCheckSettle_def flags_ok_def Let_def split: settled.split js_value.split)

lemma healthCheckTick_fields [simp]:
  "intervals (healthCheckTick p s) = intervals s"
  "healthCheckInterval (healthCheckTick p s) = healthCheckInterval s"
  "nextHandle (healthCheckTick p s) = nextHandle s"
  by (simp_all add: healthCheckTick_def)

lemma healthCheckTick_flags:
  "flags_ok s \<Longrightarrow> flags_ok (healthCheckTick p s)"
  "fallbackMode s \<Longrightarrow> fallbackMode (healthCheckTick p s)"
  by (simp_all add: healthCheckTick_def healthCheckSettle_flags)

lemma start_begin_fields [simp]:
  "intervals (start_begin s) = intervals s"
  "healthCheckInterval (start_begin s) = healthCheckInterval s"
  "nextHandle (start_begin s) = nextHandle s"
  "isConnected (start_begin s) = isConnected s"
  "fallbackMode (start_begin s) = fallbackMode s"
  by (simp_all add: start_begin_def)

lemma restart_begin_fields [simp]:
  "\<not> isConnected (restart_begin s)"
  "fallbackMode (restart_begin s) = fallbackMode s"
  "intervals (restart_begin s) = intervals (stopHealthCheck s)"
  "healthCheckInterval (restart_begin s) = healthCheckInterval (stopHealthCheck s)"
  "nextHandle (restart_begin s) = nextHandle (stopHealthCheck s)"
  by (simp_all add: restart_begin_def Let_def)

lemma start_settle_cases:
  obtains s' where "probe_ok p" "start_settle p s = Inr (True, s')" "isConnected s'"
      "\<not> fallbackMode s'" "timers_ok s \<longrightarrow> timers_ok s' \<and> intervals s' = [nextHandle s]"
  | s' where "\<not> probe_ok p" "start_settle p s = Inr (False, s')" "\<not> isConnected s'"
      "fallbackMode s'" "lastError s' = Some (failure_reason p)"
      "intervals s' = intervals s" "healthCheckInterval s' = healthCheckInterval s"
      "nextHandle s' = nextHandle s"
proof (cases "probe_ok p")
  case True
  let ?s1 = "s\<lparr>isConnected := True, fallbackMode := False, retryCount := 0\<rparr>"
  have eq: "timers_ok ?s1 = timers_ok s" by (rule timers_ok_fields) simp_all
  have "timers_ok s \<longrightarrow> timers_ok (startHealthCheck ?s1) \<and> intervals (startHealthCheck ?s1) = [nextHandle s]"
    using timers_ok_startHealthCheck [of ?s1] startHealthCheck_timers [of ?s1] eq by simp
  with True that(1) [of "startHealthCheck ?s1"] show ?thesis
    by (simp add: start_settle_eq)
next
  case False
  with that(2) [of "enableFallbackMode (failure_reason p) s"]
  show ?thesis by (simp add: start_settle_eq)
qed

lemma start_cases:
  obtains s' where "probe_ok p" "start p s = Inr (True, s')" "isConnected s'" "\<not> fallbackMode s'"
      "timers_ok s \<longrightarrow> timers_ok s' \<and> intervals s' = [nextHandle s]"
  | s' where "\<not> probe_ok p" "start p s = Inr (False, s')" "\<not> isConnected s'" "fallbackMode s'"
      "lastError s' = Some (failure_reason p)"
      "intervals s' = intervals s" "healthCheckInterval s' = healthCheckInterval s"
      "nextHandle s' = nextHandle s"
proof -
  have eq: "timers_ok (start_begin s) = timers_ok s" by (rule timers_ok_fields) simp_all
  show ?thesis
  proof (rule start_settle_cases [of p "start_begin s"])
    fix s' assume "probe_ok p" "start_settle p (start_begin s) = Inr (True, s')" "isConnected s'"
      "\<not> fallbackMode s'"
      "timers_ok (start_begin s) \<longrightarrow> timers_ok s' \<and> intervals s' = [nextHandle (start_begin s)]"
    with eq that(1) [of s'] show ?thesis by (simp add: start_def)
  next
    fix s' assume "\<not> probe_ok p" "start_settle p (start_begin s) = Inr (False, s')"
      "\<not> isConnected s'" "fallbackMode s'" "lastError s' = Some (failure_reason p)"
      "intervals s' = intervals (start_begin s)"
      "healthCheckInterval s' = healthCheckInterval (start_begin s)"
      "nextHandle s' = nextHandle (start_begin s)"
    with that(2) [of s'] show ?thesis by (simp add: start_def)
  qed
qed

lemma restart_eq:
  "restart p s = start p ((stopHealthCheck s)\<lparr>isConnected := False, retryCount := 0\<rparr>)"
  by (simp add: restart_def restart_begin_def Let_def)

lemma exec_settle_inv:
  assumes "timers_ok s"
  shows "\<exists>ok s'. start_settle p s = Inr (ok, s') \<and> flags_ok s' \<and> timers_ok s'"
proof (rule start_settle_cases [of p s])
  fix s' assume "start_settle p s = Inr (True, s')" "isConnected s'" "\<not> fallbackMode s'"
    "timers_ok s \<longrightarrow> timers_ok s' \<and> intervals s' = [nextHandle s]"
  with assms show ?thesis by (auto simp: flags_ok_def)
next
  fix s' assume "start_settle p s = Inr (False, s')" "\<not> isConnected s'"
    "intervals s' = intervals s" "healthCheckInterval s' = healthCheckInterval s"
    "nextHandle s' = nextHandle s"
  with assms timers_ok_fields [of s' s] show ?thesis by (auto simp: flags_ok_def)
qed

lemma exec_start_inv:
  assumes "timers_ok s"
  shows "\<exists>ok s'. start p s = Inr (ok, s') \<and> flags_ok s' \<and> timers_ok s'"
proof -
  have "timers_ok (start_begin s) = timers_ok s" by (rule timers_ok_fields) simp_all
  with assms have "timers_ok (start_begin s)" by simp
  from exec_settle_inv [OF this, of p] show ?thesis by (simp add: start_def)
qed

lemma timers_ok_restart_begin:
  assumes "timers_ok s"
  shows "timers_ok (restart_begin s)"
proof -
  have "timers_ok (restart_begin s) = timers_ok (stopHealthCheck s)"
    by (rule timers_ok_fields) simp_all
  with assms show ?thesis by (simp add: timers_ok_stop)
qed

lemma exec_restart_inv:
  assumes "timers_ok s"
  shows "\<exists>ok s'. restart p s = Inr (ok, s') \<and> flags_ok s' \<and> timers_ok s'"
  using exec_start_inv [OF timers_ok_restart_begin [OF assms], of p] by (simp add: restart_def)

lemma getAIResponse_state:
  "snd (getAIResponse e message s) = s \<or>
   snd (getAIResponse e message s) = enableFallbackMode ''Forced via chat command'' s \<or>
   (str_includes (toLowerCase message) ''restart mcp'' \<and>
    (\<exists>ok. restart (restartProbe e) s = Inr (ok, snd (getAIResponse e message s))))"
proof -
  have "\<exists>ok s'. restart (restartProbe e) s = Inr (ok, s')"
    by (simp add: restart_eq start_eq)
  then obtain ok s' where r: "restart (restartProbe e) s = Inr (ok, s')"
    by blast
  show ?thesis
    by (simp add: getAIResponse_def Let_def r)
qed

lemma exec_inv:
  assumes "flags_ok s" "timers_ok s"
  shows "\<exists>s'. exec c s = Inr s' \<and> flags_ok s' \<and> timers_ok s'"
proof (cases c)
  case (Start p)
  with exec_start_inv [OF assms(2), of p] show ?thesis by (auto simp: exec_def)
next
  case StartHealthCheck
  with assms show ?thesis by (simp add: exec_def timers_ok_startHealthCheck flags_ok_def)
next
  case (Tick p)
  with assms healthCheckTick_flags(1) [of s p] timers_ok_fields [of "healthCheckTick p s" s]
  show ?thesis by (simp add: exec_def)
next
  case (EnableFallbackMode r)
  with assms show ?thesis by (simp add: exec_def flags_ok_def)
next
  case StopHealthCheck
  with assms show ?thesis by (simp add: exec_def timers_ok_stop flags_ok_def)
next
  case (Restart p)
  with exec_restart_inv [OF assms(2), of p] show ?thesis by (auto simp: exec_def)
next
  case GetStatus
  with assms show ?thesis by (simp add: exec_def)
next
  case (GetAIResponse e m)
  from getAIResponse_state [of e m s] exec_restart_inv [OF assms(2), of "restartProbe e"] assms
  have "flags_ok (snd (getAIResponse e m s)) \<and> timers_ok (snd (getAIResponse e m s))"
    by (auto simp: flags_ok_def)
  with GetAIResponse show ?thesis by (simp add: exec_def)
next
  case BeginStart
  have "timers_ok (start_begin s) = timers_ok s" by (rule timers_ok_fields) simp_all
  with BeginStart assms show ?thesis by (simp add: exec_def flags_ok_def)
next
  case BeginRestart
  have "timers_ok (start_begin (restart_begin s)) = timers_ok (restart_begin s)"
    by (rule timers_ok_fields) simp_all
  with BeginRestart timers_ok_restart_begin [OF assms(2)] show ?thesis
    by (simp add: exec_def flags_ok_def)
next
  case (SettleStart p)
  with exec_settle_inv [OF assms(2), of p] show ?thesis by (auto simp: exec_def)
next
  case (SettleTick p)
  with assms healthCheckSettle_flags(1) [of s p] timers_ok_fields [of "healthCheckSettle p s" s]
  show ?thesis by (simp add: exec_def)
qed

lemma run_inv:
  "flags_ok s \<Longrightarrow> timers_ok s \<Longrightarrow> \<exists>s'. run cs s = Inr s' \<and> flags_ok s' \<and> timers_ok s'"
proof (induction cs arbitrary: s)
  case Nil
  then show ?case by simp
next
  case (Cons c cs)
  from exec_inv [OF Cons.prems, of c] obtain s1 where
    s1: "exec c s = Inr s1" "flags_ok s1" "timers_ok s1" by blast
  from Cons.IH [OF s1(2,3)] s1(1) show ?case by simp
qed

lemma constructor_inv: "flags_ok constructor" "timers_ok constructor"
  by (simp_all add: flags_ok_def timers_ok_def constructor_def)

text \<open>
  Claim C1. In every state the supervisor reaches from its constructed state, by any
  sequence of calls of \<^verbatim>\<open>start\<close>, \<^verbatim>\<open>startHealthCheck\<close>, health-check ticks,
  \<^verbatim>\<open>enableFallbackMode\<close>, \<^verbatim>\<open>stopHealthCheck\<close>, \<^verbatim>\<open>restart\<close>, \<^verbatim>\<open>getStatus\<close> and
  \<^verbatim>\<open>getAIResponse\<close>, whatever the external requests answer and however the calls
  interleave at their \<^verbatim>\<open>await\<close>, \<^verbatim>\<open>isConnected\<close> and \<^verbatim>\<open>fallbackMode\<close> are not both
  true; no such sequence throws.
\<close>

theorem connected_and_fallback_exclusive:
  "\<exists>s. run calls constructor = Inr s \<and> \<not> (isConnected s \<and> fallbackMode s)"
  using run_inv [OF constructor_inv, of calls] by (auto simp: flags_ok_def)

text \<open>
  Claim C4. \<^verbatim>\<open>start\<close> never throws: whatever the probe does, it returns a boolean. When
  it returns true, \<^verbatim>\<open>isConnected\<close> holds and \<^verbatim>\<open>fallbackMode\<close> does not; when it returns
  false, which it does whenever the probe is rejected, \<^verbatim>\<open>isConnected\<close> is false,
  \<^verbatim>\<open>fallbackMode\<close> is true and \<^verbatim>\<open>getStatus().lastError\<close> is a string that is not empty.
\<close>

theorem start_returns_boolean:
  "\<exists>ok s'. start probe s = Inr (ok, s') \<and> ok = probe_ok probe \<and>
     (ok \<longrightarrow> isConnected s' \<and> \<not> fallbackMode s') \<and>
     (\<not> ok \<longrightarrow> \<not> isConnected s' \<and> fallbackMode s' \<and>
        (\<exists>m. status_lastError (getStatus s') = Some m \<and> m \<noteq> [])) \<and>
     ((\<exists>e. probe = Rejected e) \<longrightarrow> \<not> ok)"
proof (rule start_cases [of probe s])
  fix s' assume a: "probe_ok probe" "start probe s = Inr (True, s')" "isConnected s'" "\<not> fallbackMode s'"
  from a(1) have "\<not> (\<exists>e. probe = Rejected e)" by auto
  with a show ?thesis by (intro exI [of _ True] exI [of _ s']) simp
next
  fix s' assume "\<not> probe_ok probe" "start probe s = Inr (False, s')" "\<not> isConnected s'"
    "fallbackMode s'" "lastError s' = Some (failure_reason probe)"
  then show ?thesis
    by (intro exI [of _ False] exI [of _ s']) (simp add: getStatus_def failure_reason_nonempty)
qed

theorem start_returns_boolean_witness:
  "(\<exists>s'. start (Resolved (GenResponse (Some ''Yes, I am working.''))) constructor = Inr (True, s') \<and>
      isConnected s' \<and> \<not> fallbackMode s') \<and>
   (\<exists>s'. start (Rejected (Obj (Some ''API key not valid''))) constructor = Inr (False, s') \<and>
      \<not> isConnected s' \<and> fallbackMode s' \<and>
      status_lastError (getStatus s') = Some ''Gemini initialization failed: API key not valid'')"
  using start_returns_boolean [of "Resolved (GenResponse (Some ''Yes, I am working.''))" constructor]
    start_returns_boolean [of "Rejected (Obj (Some ''API key not valid''))" constructor]
  by (simp add: start_eq getStatus_def failure_reason_def message_text_def)

text \<open>
  Claim C7. \<^verbatim>\<open>restart\<close> is \<^verbatim>\<open>stopHealthCheck\<close>, the reset of \<^verbatim>\<open>isConnected\<close> and
  \<^verbatim>\<open>retryCount\<close>, and then \<^verbatim>\<open>start\<close>; in a state \<open>s\<close> reached by any sequence of calls,
  \<^verbatim>\<open>start\<close> is thus entered with no interval scheduled and no handle held. In every such
  state (the sequence may hold any calls, also interleaved at their \<^verbatim>\<open>await\<close>) at most
  one interval is scheduled, the one whose handle the supervisor holds;
  \<^verbatim>\<open>startHealthCheck\<close> leaves exactly the interval it creates, whose handle is new; and
  after \<^verbatim>\<open>restart\<close> the only interval is the new one when it succeeds, none when it fails.
\<close>

theorem one_health_check_timer:
  "\<exists>s. run calls constructor = Inr s \<and>
     length (intervals s) \<le> 1 \<and>
     intervals s = (case healthCheckInterval s of None \<Rightarrow> [] | Some h \<Rightarrow> [h]) \<and>
     nextHandle s \<notin> set (intervals s) \<and>
     intervals (startHealthCheck s) = [nextHandle s] \<and>
     healthCheckInterval (startHealthCheck s) = Some (nextHandle s) \<and>
     restart p s = start p ((stopHealthCheck s)\<lparr>isConnected := False, retryCount := 0\<rparr>) \<and>
     intervals (stopHealthCheck s) = [] \<and>
     healthCheckInterval (stopHealthCheck s) = None \<and>
     (\<exists>ok s'. restart p s = Inr (ok, s') \<and> intervals s' = (if ok then [nextHandle s] else []))"
proof -
  from run_inv [OF constructor_inv, of calls] obtain s where
    s: "run calls constructor = Inr s" "timers_ok s" by blast
  let ?s2 = "(stopHealthCheck s)\<lparr>isConnected := False, retryCount := 0\<rparr>"
  note stop = stopHealthCheck_timers [OF s(2)]
  have t2: "timers_ok ?s2"
    using timers_ok_stop [OF s(2)] timers_ok_fields [of ?s2 "stopHealthCheck s"] by simp
  have i2: "intervals ?s2 = []" "nextHandle ?s2 = nextHandle s"
    using stop by simp_all
  have r: "\<exists>ok s'. restart p s = Inr (ok, s') \<and> intervals s' = (if ok then [nextHandle s] else [])"
  proof (rule start_cases [of p ?s2])
    fix s' assume "start p ?s2 = Inr (True, s')"
      "timers_ok ?s2 \<longrightarrow> timers_ok s' \<and> intervals s' = [nextHandle ?s2]"
    with t2 i2 show ?thesis by (intro exI [of _ True] exI [of _ s']) (simp add: restart_eq)
  next
    fix s' assume "start p ?s2 = Inr (False, s')" "intervals s' = intervals ?s2"
    with i2 show ?thesis by (intro exI [of _ False] exI [of _ s']) (simp add: restart_eq)
  qed
  have fresh: "nextHandle s \<notin> set (intervals s)"
    using s(2) by (auto simp: timers_ok_def list_all_iff)
  have one: "length (intervals s) \<le> 1"
    "intervals s = (case healthCheckInterval s of None \<Rightarrow> [] | Some h \<Rightarrow> [h])"
    using s(2) by (auto simp: timers_ok_def split: option.splits)
  from s(1) one fresh startHealthCheck_timers [OF s(2)] stop r show ?thesis
    by (simp add: restart_eq)
qed

lemma exec_fallback:
  assumes "fallbackMode s" "\<not> may_leave_fallback c"
  shows "\<exists>s'. exec c s = Inr s' \<and> fallbackMode s'"
proof (cases c)
  case (Start p)
  with assms(2) have "\<not> probe_ok p" by (simp add: may_leave_fallback_def)
  with Start show ?thesis by (simp add: exec_def start_eq)
next
  case (Restart p)
  with assms(2) have "\<not> probe_ok p" by (simp add: may_leave_fallback_def)
  with Restart show ?thesis by (simp add: exec_def restart_eq start_eq)
next
  case (Tick p)
  with assms(1) show ?thesis by (simp add: exec_def healthCheckTick_flags)
next
  case (SettleTick p)
  with assms(1) show ?thesis by (simp add: exec_def healthCheckSettle_flags)
next
  case (SettleStart p)
  with assms(2) have "\<not> probe_ok p" by (simp add: may_leave_fallback_def)
  with SettleStart show ?thesis by (simp add: exec_def start_settle_eq)
next
  case (GetAIResponse e m)
  from getAIResponse_state [of e m s] have "fallbackMode (snd (getAIResponse e m s))"
  proof (elim disjE conjE exE)
    fix ok
    assume inc: "str_includes (toLowerCase m) ''restart mcp''"
      and r: "restart (restartProbe e) s = Inr (ok, snd (getAIResponse e m s))"
    from inc assms(2) GetAIResponse have np: "\<not> probe_ok (restartProbe e)"
      by (simp add: may_leave_fallback_def)
    let ?s2 = "(stopHealthCheck s)\<lparr>isConnected := False, retryCount := 0, geminiModel := True\<rparr>"
    from r have "Inr (ok, snd (getAIResponse e m s)) = restart (restartProbe e) s"
      by simp
    also from np have "\<dots> = Inr (False, enableFallbackMode (failure_reason (restartProbe e)) ?s2)"
      by (simp add: restart_eq start_eq)
    finally have "snd (getAIResponse e m s) =
        enableFallbackMode (failure_reason (restartProbe e)) ?s2"
      by simp
    then show ?thesis by simp
  qed (use assms(1) in simp_all)
  with GetAIResponse show ?thesis by (simp add: exec_def)
qed (use assms(1) in \<open>simp_all add: exec_def\<close>)

lemma run_fallback:
  "fallbackMode s \<Longrightarrow> list_all (\<lambda>c. \<not> may_leave_fallback c) cs \<Longrightarrow>
   \<exists>s'. run cs s = Inr s' \<and> fallbackMode s'"
proof (induction cs arbitrary: s)
  case Nil
  then show ?case by simp
next
  case (Cons c cs)
  from Cons.prems have "\<not> may_leave_fallback c" by simp
  from exec_fallback [OF Cons.prems(1) this] obtain s1 where
    s1: "exec c s = Inr s1" "fallbackMode s1" by blast
  from Cons.prems have "list_all (\<lambda>c. \<not> may_leave_fallback c) cs" by simp
  from Cons.IH [OF s1(2) this] s1(1) show ?case by simp
qed

text \<open>
  Claim C9. Once \<^verbatim>\<open>fallbackMode\<close> is true it stays true along every sequence of calls
  (ticks of the health check, \<^verbatim>\<open>getAIResponse\<close>, \<^verbatim>\<open>getStatus\<close>, \<^verbatim>\<open>stopHealthCheck\<close>,
  \<^verbatim>\<open>enableFallbackMode\<close>, \<^verbatim>\<open>startHealthCheck\<close>, failed starts and restarts) that
  contains no \<^verbatim>\<open>start\<close> with a successful probe, be it direct, through \<^verbatim>\<open>restart\<close> or
  through the chat command \<^verbatim>\<open>restart mcp\<close>, whole or interleaved with other calls. A
  failed \<^verbatim>\<open>start\<close> schedules no interval: it leaves the scheduled intervals and the held
  handle as they were; a failed \<^verbatim>\<open>restart\<close> leaves none scheduled.
\<close>

theorem fallback_mode_sticky:
  assumes "fallbackMode s" and "\<forall>c \<in> set cs. \<not> may_leave_fallback c"
  shows "(\<exists>s'. run cs s = Inr s' \<and> fallbackMode s') \<and>
         (\<forall>p s0. \<not> probe_ok p \<longrightarrow>
            (\<exists>s'. start p s0 = Inr (False, s') \<and> fallbackMode s' \<and>
                  intervals s' = intervals s0 \<and>
                  healthCheckInterval s' = healthCheckInterval s0)) \<and>
         (\<forall>p s0. \<not> probe_ok p \<and> timers_ok s0 \<longrightarrow>
            (\<exists>s'. restart p s0 = Inr (False, s') \<and> fallbackMode s' \<and>
                  intervals s' = [] \<and> healthCheckInterval s' = None))"
proof (intro conjI allI impI)
  from assms(2) have "list_all (\<lambda>c. \<not> may_leave_fallback c) cs"
    by (simp add: list_all_iff)
  from run_fallback [OF assms(1) this] show "\<exists>s'. run cs s = Inr s' \<and> fallbackMode s'" .
next
  fix p s0 assume "\<not> probe_ok p"
  then show "\<exists>s'. start p s0 = Inr (False, s') \<and> fallbackMode s' \<and>
      intervals s' = intervals s0 \<and> healthCheckInterval s' = healthCheckInterval s0"
    by (simp add: start_eq)
next
  fix p s0 assume a: "\<not> probe_ok p \<and> timers_ok s0"
  then have "timers_ok s0" by simp
  from stopHealthCheck_timers [OF this] a
  show "\<exists>s'. restart p s0 = Inr (False, s') \<and> fallbackMode s' \<and>
      intervals s' = [] \<and> healthCheckInterval s' = None"
    by (simp add: restart_eq start_eq)
qed

theorem fallback_mode_sticky_witness:
  "fallbackMode (enableFallbackMode ''Forced via chat command'' constructor) \<and>
   list_all (\<lambda>c. \<not> may_leave_fallback c)
     [StartHealthCheck, Tick (Rejected Nullish), BeginRestart,
      SettleTick (Rejected (Obj (Some ''fetch failed''))), SettleStart (Rejected (Obj None)),
      GetAIResponse sample_env ''Restart MCP server'',
      GetStatus, StopHealthCheck, Start (Rejected (Obj None))] \<and>
   (\<exists>s'. run [StartHealthCheck, Tick (Rejected Nullish), BeginRestart,
      SettleTick (Rejected (Obj (Some ''fetch failed''))), SettleStart (Rejected (Obj None)),
      GetAIResponse sample_env ''Restart MCP server'',
      GetStatus, StopHealthCheck, Start (Rejected (Obj None))]
             (enableFallbackMode ''Forced via chat command'' constructor) = Inr s' \<and>
         fallbackMode s') \<and>
   (\<exists>s'. start (Rejected (Obj None)) constructor = Inr (False, s') \<and> fallbackMode s' \<and>
         intervals s' = intervals constructor) \<and>
   (\<exists>s'. restart (Rejected (Obj None)) constructor = Inr (False, s') \<and> fallbackMode s' \<and>
         intervals s' = [])"
proof -
  have h1: "fallbackMode (enableFallbackMode ''Forced via chat command'' constructor)"
    by simp
  have h2: "\<forall>c \<in> set [StartHealthCheck, Tick (Rejected Nullish), BeginRestart,
      SettleTick (Rejected (Obj (Some ''fetch failed''))), SettleStart (Rejected (Obj None)),
      GetAIResponse sample_env ''Restart MCP server'',
      GetStatus, StopHealthCheck, Start (Rejected (Obj None))]. \<not> may_leave_fallback c"
    by (simp add: may_leave_fallback_def sample_env_def)
  have h3: "\<not> probe_ok (Rejected (Obj None))" by simp
  have h4: "timers_ok constructor" by (rule constructor_inv)
  from fallback_mode_sticky [OF h1 h2] have
    c1: "\<exists>s'. run [StartHealthCheck, Tick (Rejected Nullish), BeginRestart,
      SettleTick (Rejected (Obj (Some ''fetch failed''))), SettleStart (Rejected (Obj None)),
      GetAIResponse sample_env ''Restart MCP server'',
      GetStatus, StopHealthCheck, Start (Rejected (Obj None))]
             (enableFallbackMode ''Forced via chat command'' constructor) = Inr s' \<and>
         fallbackMode s'"
    and c2: "\<exists>s'. start (Rejected (Obj None)) constructor = Inr (False, s') \<and> fallbackMode s' \<and>
         intervals s' = intervals constructor"
    and c3: "\<exists>s'. restart (Rejected (Obj None)) constructor = Inr (False, s') \<and> fallbackMode s' \<and>
         intervals s' = []"
    using h3 h4 by blast+
  from h2 have "list_all (\<lambda>c. \<not> may_leave_fallback c)
     [StartHealthCheck, Tick (Rejected Nullish), BeginRestart,
      SettleTick (Rejected (Obj (Some ''fetch failed''))), SettleStart (Rejected (Obj None)),
      GetAIResponse sample_env ''Restart MCP server'',
      GetStatus, StopHealthCheck, Start (Rejected (Obj None))]"
    unfolding list_all_iff .
  with h1 c1 c2 c3 show ?thesis by (intro conjI)
qed

section \<open>The classifier and the chat answers\<close>

lemma str_includes_iff: "str_includes s k \<longleftrightarrow> (\<exists>pre post. s = pre @ k @ post)"
proof (induction s)
  case Nil
  then show ?case by auto
next
  case (Cons c cs)
  have "startsWith (c # cs) k \<longleftrightarrow> (\<exists>post. c # cs = k @ post)"
    unfolding startsWith_def
    by (metis append_eq_conv_conj)
  moreover have "(\<exists>pre post. c # cs = pre @ k @ post) \<longleftrightarrow>
      (\<exists>post. c # cs = k @ post) \<or> (\<exists>pre post. cs = pre @ k @ post)"
  proof
    assume "\<exists>pre post. c # cs = pre @ k @ post"
    then obtain pre post where e: "c # cs = pre @ k @ post" by blast
    show "(\<exists>post. c # cs = k @ post) \<or> (\<exists>pre post. cs = pre @ k @ post)"
    proof (cases pre)
      case Nil
      with e show ?thesis by auto
    next
      case (Cons p ps)
      with e have "cs = ps @ k @ post" by simp
      then show ?thesis by blast
    qed
  next
    assume "(\<exists>post. c # cs = k @ post) \<or> (\<exists>pre post. cs = pre @ k @ post)"
    then show "\<exists>pre post. c # cs = pre @ k @ post"
    proof
      assume "\<exists>post. c # cs = k @ post"
      then obtain post where "c # cs = [] @ k @ post" by auto
      then show ?thesis by blast
    next
      assume "\<exists>pre post. cs = pre @ k @ post"
      then obtain pre post where "c # cs = (c # pre) @ k @ post" by auto
      then show ?thesis by blast
    qed
  qed
  ultimately show ?case using Cons.IH by simp
qed

lemma hex_digits_lower:
  "list_all (\<lambda>c. is_hex (lower_char c)) ''0123456789abcdefABCDEF''"
  by code_simp

lemma is_hex_lower: "is_hex c \<Longrightarrow> is_hex (lower_char c)"
  using hex_digits_lower unfolding list_all_iff is_hex_def by blast

lemma lower_0x: "toLowerCase ''0x'' = ''0x''"
  by code_simp

lemma address_here_lower:
  assumes "address_here a"
  shows "address_here (toLowerCase a)"
proof -
  from assms have l: "42 \<le> length a" and p: "take 2 a = ''0x''"
    and h: "list_all is_hex (take 40 (drop 2 a))"
    by (simp_all add: address_here_def)
  have "take 2 (toLowerCase a) = toLowerCase (take 2 a)"
    by (simp add: toLowerCase_def take_map)
  with p have p': "take 2 (toLowerCase a) = ''0x''" by (simp add: lower_0x)
  have "take 40 (drop 2 (toLowerCase a)) = map lower_char (take 40 (drop 2 a))"
    by (simp add: toLowerCase_def take_map drop_map)
  with h have "list_all is_hex (take 40 (drop 2 (toLowerCase a)))"
    by (simp add: list_all_iff is_hex_lower)
  with l p' show ?thesis by (simp add: address_here_def toLowerCase_def)
qed

lemma address_here_append:
  assumes "address_here a"
  shows "address_here (a @ post)"
  using assms by (simp add: address_here_def)

lemma match_address_first:
  "address_here (drop i s) \<Longrightarrow> (\<forall>j<i. \<not> address_here (drop j s)) \<Longrightarrow>
   match_address s = Some (take 42 (drop i s))"
proof (induction s arbitrary: i)
  case Nil
  then show ?case by (simp add: address_here_def)
next
  case (Cons c cs)
  show ?case
  proof (cases i)
    case 0
    with Cons.prems(1) show ?thesis by simp
  next
    case (Suc k)
    with Cons.prems(2) have n: "\<not> address_here (c # cs)" by force
    from Suc Cons.prems(1) have a: "address_here (drop k cs)" by simp
    have "\<forall>j<k. \<not> address_here (drop j cs)"
    proof (intro allI impI)
      fix j assume "j < k"
      with Suc have "Suc j < i" by simp
      with Cons.prems(2) have "\<not> address_here (drop (Suc j) (c # cs))" by blast
      then show "\<not> address_here (drop j cs)" by simp
    qed
    from Cons.IH [OF a this] n Suc show ?thesis by simp
  qed
qed

lemma match_address_exists:
  "address_here (drop i s) \<Longrightarrow> \<exists>a. match_address s = Some a"
proof (induction s arbitrary: i)
  case Nil
  then show ?case by (simp add: address_here_def)
next
  case (Cons c cs)
  show ?case
  proof (cases i)
    case 0
    with Cons.prems show ?thesis by simp
  next
    case (Suc k)
    with Cons.prems have "address_here (drop k cs)" by simp
    from Cons.IH [OF this] show ?thesis by auto
  qed
qed

lemma match_address_is_match:
  "match_address s = Some a \<Longrightarrow> address_here a \<and> length a = 42 \<and> str_includes s a"
proof (induction s)
  case Nil
  then show ?case by simp
next
  case (Cons c cs)
  show ?case
  proof (cases "address_here (c # cs)")
    case True
    with Cons.prems have a: "a = take 42 (c # cs)" by simp
    from True have "42 \<le> length (c # cs)" by (simp add: address_here_def)
    with a have l: "length a = 42" by simp
    from True a have "address_here a"
      by (simp add: address_here_def min_def take_drop)
    moreover from a l have "startsWith (c # cs) a" by (simp add: startsWith_def)
    ultimately show ?thesis using l by simp
  next
    case False
    with Cons.prems have "match_address cs = Some a" by simp
    from Cons.IH [OF this] show ?thesis by simp
  qed
qed

lemma lowered_occurrence:
  assumes "m = pre @ a @ post" "address_here a" "length a = 42"
  shows "address_here (drop (length pre) (toLowerCase m))"
    and "take 42 (drop (length pre) (toLowerCase m)) = toLowerCase a"
proof -
  from assms(1) have d: "drop (length pre) (toLowerCase m) = toLowerCase a @ toLowerCase post"
    by (simp add: toLowerCase_def)
  from address_here_append [OF address_here_lower [OF assms(2)]] d
  show "address_here (drop (length pre) (toLowerCase m))" by simp
  from d assms(3) show "take 42 (drop (length pre) (toLowerCase m)) = toLowerCase a"
    by (simp add: toLowerCase_def)
qed

lemma address_is_matched:
  assumes "m = pre @ a @ post" "address_here a" "length a = 42"
  shows "\<exists>a'. match_address (toLowerCase m) = Some a'"
  using match_address_exists [OF lowered_occurrence(1) [OF assms]] .




text \<open>
  Claim C5, as amended. For a message that contains an address (\<^verbatim>\<open>0x\<close> and forty
  hexadecimal digits) and, in lower case, the word \<^verbatim>\<open>portfolio\<close>, the classification is
  the category portfolio with \<^verbatim>\<open>multiChain\<close> true, and the address field is the leftmost
  match of the pattern in the lower-cased message: when the given address is the first
  match, the field is its lower-case form.
\<close>

theorem portfolio_classification:
  assumes "m = pre @ a @ post" and "address_here a" and "length a = 42"
    and "str_includes (toLowerCase m) ''portfolio''"
  shows "\<exists>a'. getBlockchainContext m = address_context Portfolio a' True \<and>
           match_address (toLowerCase m) = Some a' \<and>
           address_here a' \<and> length a' = 42 \<and> str_includes (toLowerCase m) a' \<and>
           ((\<forall>j<length pre. \<not> address_here (drop j (toLowerCase m))) \<longrightarrow> a' = toLowerCase a)"
proof -
  note occ = lowered_occurrence [OF assms(1-3)]
  from match_address_exists [OF occ(1)] obtain a' where
    a': "match_address (toLowerCase m) = Some a'" by blast
  from a' assms(4) have "getBlockchainContext m = address_context Portfolio a' True"
    by (simp add: getBlockchainContext_def Let_def)
  moreover have "(\<forall>j<length pre. \<not> address_here (drop j (toLowerCase m))) \<longrightarrow> a' = toLowerCase a"
  proof
    assume "\<forall>j<length pre. \<not> address_here (drop j (toLowerCase m))"
    from match_address_first [OF occ(1) this] a' occ(2) show "a' = toLowerCase a" by simp
  qed
  ultimately show ?thesis using a' match_address_is_match [OF a'] by blast
qed

theorem portfolio_classification_witness:
  "getBlockchainContext ''0x52908400098527886E0F7030069857D2E4169EE7 portfolio'' =
     address_context Portfolio ''0x52908400098527886e0f7030069857d2e4169ee7'' True"
proof -
  have m: "''0x52908400098527886E0F7030069857D2E4169EE7 portfolio'' =
      [] @ ''0x52908400098527886E0F7030069857D2E4169EE7'' @ '' portfolio''"
    by simp
  have h: "address_here ''0x52908400098527886E0F7030069857D2E4169EE7''"
    "length ''0x52908400098527886E0F7030069857D2E4169EE7'' = 42"
    "str_includes (toLowerCase ''0x52908400098527886E0F7030069857D2E4169EE7 portfolio'') ''portfolio''"
    by code_simp+
  have l: "toLowerCase ''0x52908400098527886E0F7030069857D2E4169EE7'' =
      ''0x52908400098527886e0f7030069857d2e4169ee7''"
    by code_simp
  from portfolio_classification [OF m h] l show ?thesis by auto
qed

theorem portfolio_classification_counterexample:
  "str_includes ''Analyze portfolio 0x52908400098527886E0F7030069857D2E4169EE7 please''
     ''0x52908400098527886E0F7030069857D2E4169EE7'' \<and>
   address_here ''0x52908400098527886E0F7030069857D2E4169EE7'' \<and>
   str_includes ''Analyze portfolio 0x52908400098527886E0F7030069857D2E4169EE7 please'' ''portfolio'' \<and>
   ctx_type (getBlockchainContext ''Analyze portfolio 0x52908400098527886E0F7030069857D2E4169EE7 please'') = Portfolio \<and>
   ctx_address (getBlockchainContext ''Analyze portfolio 0x52908400098527886E0F7030069857D2E4169EE7 please'') =
     Some ''0x52908400098527886e0f7030069857d2e4169ee7'' \<and>
   ctx_address (getBlockchainContext ''Analyze portfolio 0x52908400098527886E0F7030069857D2E4169EE7 please'') \<noteq>
     Some ''0x52908400098527886E0F7030069857D2E4169EE7''"
  by code_simp

text \<open>
  Claim C2 (the code departs from it). The message \<^verbatim>\<open>Show gas price on Ethereum\<close> contains
  \<^verbatim>\<open>ethereum\<close>, which the classifier tests before the gas keywords: the category is
  \<^verbatim>\<open>chain\<close>, the gas handler of \<^verbatim>\<open>getAIResponse\<close> is passed over, and the answer is the
  text of the model when the supervisor is connected and the canned default text
  otherwise, although \<^verbatim>\<open>getGasPrice\<close> would return 42. The same request without the
  chain name reaches the handler.
\<close>

theorem gas_price_on_ethereum:
  "getBlockchainContext ''Show gas price on Ethereum'' = chain_context ''ethereum'' Chain True \<and>
   getGasPrice ''ethereum'' (Replied (Some ''0x9c7652400'')) = Num 42 \<and>
   fst (getAIResponse e ''Show gas price on Ethereum'' s) =
     (if geminiModel s \<and> isConnected s
      then (case generate e of
              Resolved (GenResponse t) \<Rightarrow> ModelText t
            | Resolved GenNullish \<Rightarrow> FallbackDefault ''Show gas price on Ethereum''
            | Rejected err \<Rightarrow> FallbackDefault ''Show gas price on Ethereum'')
      else FallbackDefault ''Show gas price on Ethereum'') \<and>
   fst (getAIResponse \<lparr>gasRpc = (\<lambda>c. Replied (Some ''0x9c7652400'')), restartProbe = p, generate = g\<rparr>
          ''Show gas price'' s) = GasEstimate ''ETHEREUM'' (Num 42)"
proof -
  have c: "getBlockchainContext ''Show gas price on Ethereum'' = chain_context ''ethereum'' Chain True"
    by code_simp
  have g: "getGasPrice ''ethereum'' (Replied (Some ''0x9c7652400'')) = Num 42"
    by code_simp
  have n: "\<not> str_includes (toLowerCase ''Show gas price on Ethereum'') ''system status''"
    "\<not> str_includes (toLowerCase ''Show gas price on Ethereum'') ''mcp status''"
    "\<not> str_includes (toLowerCase ''Show gas price on Ethereum'') ''restart mcp''"
    "\<not> str_includes (toLowerCase ''Show gas price on Ethereum'') ''force fallback''"
    by code_simp+
  have f: "getFallbackResponse ''Show gas price on Ethereum'' = FallbackDefault ''Show gas price on Ethereum''"
    by code_simp
  have r: "fst (getAIResponse e ''Show gas price on Ethereum'' s) =
     (if geminiModel s \<and> isConnected s
      then (case generate e of
              Resolved (GenResponse t) \<Rightarrow> ModelText t
            | Resolved GenNullish \<Rightarrow> FallbackDefault ''Show gas price on Ethereum''
            | Rejected err \<Rightarrow> FallbackDefault ''Show gas price on Ethereum'')
      else FallbackDefault ''Show gas price on Ethereum'')"
    by (simp add: getAIResponse_def Let_def c n f chain_context_def getGeminiResponse_def
        split: settled.split gen_result.split)
  have c2: "getBlockchainContext ''Show gas price'' = chain_context ''ethereum'' Gas True"
    by code_simp
  have u: "toUpperCase ''ethereum'' = ''ETHEREUM''" by code_simp
  have r2: "fst (getAIResponse \<lparr>gasRpc = (\<lambda>c. Replied (Some ''0x9c7652400'')), restartProbe = p, generate = g\<rparr>
          ''Show gas price'' s) = GasEstimate ''ETHEREUM'' (Num 42)"
    by (simp add: getAIResponse_def Let_def c2 chain_context_def orElse_def g u greater_zero_def)
  from c g r r2 show ?thesis by (intro conjI)
qed

section \<open>The wallet context and its summary\<close>

lemma six_chains_configured:
  "list_all (\<lambda>c. map_of CHAIN_CONFIGS c \<noteq> None) six_chains"
  by code_simp

lemma six_chains_distinct: "distinct six_chains"
  by (simp add: six_chains_def)

lemma fetch_chain_throws:
  "fetch_chain w c = Inl e \<Longrightarrow> e = TypeError ''message''"
  by (auto simp: fetch_chain_def fetch_chain_catch_def split: sum.splits js_value.splits)

lemma fetch_loop_throws:
  "fetch_loop w cs results = Inl e \<Longrightarrow> e = TypeError ''message''"
proof (induction cs arbitrary: results)
  case Nil
  then show ?case by simp
next
  case (Cons c cs)
  show ?case
  proof (cases "fetch_chain w c")
    case (Inl x)
    with Cons.prems have "fetch_chain w c = Inl e" by simp
    then show ?thesis by (rule fetch_chain_throws)
  next
    case (Inr entry)
    with Cons.prems have "fetch_loop w cs (results @ [entry]) = Inl e" by simp
    then show ?thesis by (rule Cons.IH)
  qed
qed

lemma fetchWalletContext_returns: "\<exists>f. fetchWalletContext w address cs = Inr f"
proof (cases "fetch_loop w cs []")
  case (Inl e)
  from fetch_loop_throws [OF this] Inl show ?thesis
    by (simp add: fetchWalletContext_def TypeError_def)
next
  case (Inr results)
  then show ?thesis by (simp add: fetchWalletContext_def)
qed

lemma fetch_loop_entries:
  assumes "\<forall>c \<in> set cs. fetch_chain w c = Inr (f c)"
  shows "fetch_loop w cs results = Inr (results @ map f cs)"
  using assms by (induction cs arbitrary: results) simp_all

lemma entry_chain_fetch_chain: "fetch_chain w c = Inr z \<Longrightarrow> entry_chain z = c"
  by (auto simp: fetch_chain_def fetch_chain_try_def fetch_chain_catch_def error_entry_def Let_def
      split: sum.splits js_value.splits option.splits axios.splits)

lemma fetch_chain_failed:
  assumes "c \<in> set six_chains" "nativeResp w c = Failed (Obj m)"
  shows "fetch_chain w c = Inr (error_entry c m)"
proof -
  from six_chains_configured assms(1) obtain cfg where "map_of CHAIN_CONFIGS c = Some cfg"
    unfolding list_all_iff by blast
  with assms(2) show ?thesis
    by (simp add: fetch_chain_def fetch_chain_try_def fetch_chain_catch_def)
qed

lemma fetch_chain_replied:
  assumes "c \<in> set six_chains" "nativeResp w c = Replied r"
  shows "\<exists>z. fetch_chain w c = Inr z \<and> entry_ok z"
proof -
  from six_chains_configured assms(1) obtain cfg where "map_of CHAIN_CONFIGS c = Some cfg"
    unfolding list_all_iff by blast
  with assms(2) show ?thesis
    by (simp add: fetch_chain_def fetch_chain_try_def entry_ok_def Let_def)
qed

lemma error_entry_not_ok [simp]: "\<not> entry_ok (error_entry c m)"
  by (simp add: entry_ok_def error_entry_def)

lemma fetch_chain_cong:
  assumes "nativeResp w' c = nativeResp w c" "tokenResp w' c = tokenResp w c"
  shows "fetch_chain w' c = fetch_chain w c"
  unfolding fetch_chain_def fetch_chain_try_def assms by (rule refl)

lemma filter_only:
  "distinct xs \<Longrightarrow> c0 \<in> set xs \<Longrightarrow> filter (\<lambda>c. c = c0) xs = [c0]"
proof (induction xs)
  case Nil
  then show ?case by simp
next
  case (Cons x xs)
  show ?case
  proof (cases "x = c0")
    case True
    with Cons.prems(1) have "c0 \<notin> set xs" by simp
    then have "filter (\<lambda>c. c = c0) xs = []" by (auto simp: filter_empty_conv)
    with True show ?thesis by simp
  next
    case False
    with Cons show ?thesis by simp
  qed
qed

lemma one_failure_entries:
  assumes "c0 \<in> set six_chains" and "nativeResp w c0 = Failed (Obj m)"
    and "\<forall>c \<in> set six_chains. c \<noteq> c0 \<longrightarrow> (\<exists>r. nativeResp w c = Replied r)"
  obtains f where "\<forall>c \<in> set six_chains. fetch_chain w c = Inr (f c)"
    and "f c0 = error_entry c0 m"
    and "\<forall>c \<in> set six_chains. entry_ok (f c) \<longleftrightarrow> c \<noteq> c0"
proof -
  let ?f = "\<lambda>c. projr (fetch_chain w c)"
  have a: "fetch_chain w c = Inr (?f c) \<and> (entry_ok (?f c) \<longleftrightarrow> c \<noteq> c0)"
    if c: "c \<in> set six_chains" for c
  proof (cases "c = c0")
    case True
    with fetch_chain_failed [OF assms(1,2)] show ?thesis by simp
  next
    case False
    with assms(3) c obtain r where "nativeResp w c = Replied r" by blast
    from fetch_chain_replied [OF c this] False show ?thesis by auto
  qed
  from fetch_chain_failed [OF assms(1,2)] have "?f c0 = error_entry c0 m" by simp
  with a that [of ?f] show ?thesis by blast
qed

lemma map_of_assign: "map_of (assign k v xs) = (map_of xs)(k \<mapsto> v)"
  by (induction xs) auto

lemma summarize_loop_append:
  "summarize_loop (xs @ ys) props = summarize_loop ys (summarize_loop xs props)"
  by (induction xs arbitrary: props) simp_all

lemma summarize_loop_other:
  "\<forall>d \<in> set cs. entry_chain d \<noteq> k \<Longrightarrow> map_of (summarize_loop cs props) k = map_of props k"
  by (induction cs arbitrary: props) (auto simp: map_of_assign)

lemma zero_rounds_to_zero: "Number_of_string (toFixed 6 (Num 0)) = Num 0"
  by code_simp

lemma summarize_error_entry:
  "summarize_entry (error_entry ch e) = zero_summary (toUpperCase ch)"
  by (simp add: summarize_entry_def error_entry_def zero_summary_def isFinite_def
      zero_rounds_to_zero)

lemma assign_fresh: "k \<notin> fst ` set xs \<Longrightarrow> assign k v xs = xs @ [(k, v)]"
  by (induction xs) auto

lemma summarize_loop_fresh:
  assumes "distinct (map fst props @ cs)" and "[] \<notin> set cs"
    and "\<forall>c \<in> set cs. entry_chain (f c) = c"
  shows "summarize_loop (map f cs) props = props @ map (\<lambda>c. (c, summarize_entry (f c))) cs"
  using assms
proof (induction cs arbitrary: props)
  case Nil
  then show ?case by simp
next
  case (Cons c cs)
  from Cons.prems have c: "entry_chain (f c) = c" "c \<noteq> []" "c \<notin> fst ` set props"
    by auto
  let ?props = "props @ [(c, summarize_entry (f c))]"
  from Cons.prems have "distinct (map fst ?props @ cs)" "[] \<notin> set cs"
    "\<forall>c \<in> set cs. entry_chain (f c) = c"
    by auto
  then have "summarize_loop (map f cs) ?props = ?props @ map (\<lambda>c. (c, summarize_entry (f c))) cs"
    by (rule Cons.IH)
  with c show ?case by (simp add: assign_fresh)
qed

lemma six_chains_nonempty: "[] \<notin> set six_chains"
  by (simp add: six_chains_def)

lemma one_failure_summary:
  assumes "c0 \<in> set six_chains" and "nativeResp w c0 = Failed (Obj m)"
    and "\<forall>c \<in> set six_chains. c \<noteq> c0 \<longrightarrow> (\<exists>r. nativeResp w c = Replied r)"
  shows "map_sum id summarizeWalletCounts (fetchWalletContext w address six_chains) =
      Inr (Summary address
             (map (\<lambda>c. (c, if c = c0 then zero_summary (toUpperCase c0)
                           else summarize_entry (projr (fetch_chain w c)))) six_chains))"
proof -
  from one_failure_entries [OF assms] obtain f where
    f: "\<forall>c \<in> set six_chains. fetch_chain w c = Inr (f c)"
    and f0: "f c0 = error_entry c0 m"
    by blast
  have res: "fetchWalletContext w address six_chains =
      Inr \<lparr>fetched_address = address, fetched_chains = Some (map f six_chains),
           fetched_error = None\<rparr>"
    using fetch_loop_entries [OF f, of "[]"] by (simp add: fetchWalletContext_def)
  have chain: "\<forall>c \<in> set six_chains. entry_chain (f c) = c"
    using f entry_chain_fetch_chain by blast
  have "summarize_loop (map f six_chains) [] =
      [] @ map (\<lambda>c. (c, summarize_entry (f c))) six_chains"
    by (rule summarize_loop_fresh) (use six_chains_distinct six_chains_nonempty chain in simp_all)
  also have "map (\<lambda>c. (c, summarize_entry (f c))) six_chains =
      map (\<lambda>c. (c, if c = c0 then zero_summary (toUpperCase c0)
                    else summarize_entry (projr (fetch_chain w c)))) six_chains"
  proof (rule map_cong [OF refl])
    fix c assume "c \<in> set six_chains"
    with f have "fetch_chain w c = Inr (f c)" by blast
    then show "(c, summarize_entry (f c)) =
        (c, if c = c0 then zero_summary (toUpperCase c0)
            else summarize_entry (projr (fetch_chain w c)))"
      using f0 by (simp add: summarize_error_entry)
  qed
  finally show ?thesis by (simp add: res summarizeWalletCounts_def)
qed

text \<open>
  Claim C6, as amended. When \<^verbatim>\<open>fetchWalletContext\<close> runs over the six chains and the balance
  request of exactly one chain is rejected with an error, the call returns its normal
  result \<^verbatim>\<open>{ address, chains }\<close>: one entry per chain, in order, each the entry of that
  chain alone; five of them are successful, and the entry of the failing chain is
  \<^verbatim>\<open>{ chain, error }\<close> with the message of the error and nothing else. The entries of the
  other chains are those of any run that differs only in what the failing chain
  answers. Whatever the requests do, and for any list of chains, the call returns and
  does not throw. The summary that \<^verbatim>\<open>summarizeWalletCounts\<close> makes of this result has one
  entry per chain, in order, each computed from the fetched entry of that chain. The
  entry of the failing chain there is \<^verbatim>\<open>nativeSymbol\<close> the chain identifier in upper case,
  \<^verbatim>\<open>nativeApprox\<close> 0 and \<^verbatim>\<open>tokenCount\<close> 0; it holds no \<^verbatim>\<open>error\<close>, and the summary is the
  same whatever the message of the error is.
\<close>

theorem one_chain_failure:
  assumes "c0 \<in> set six_chains" and "nativeResp w c0 = Failed (Obj m)"
    and "\<forall>c \<in> set six_chains. c \<noteq> c0 \<longrightarrow> (\<exists>r. nativeResp w c = Replied r)"
  shows "\<exists>es props.
           fetchWalletContext w address six_chains =
             Inr \<lparr>fetched_address = address, fetched_chains = Some es, fetched_error = None\<rparr> \<and>
           map entry_chain es = six_chains \<and>
           map Inr es = map (fetch_chain w) six_chains \<and>
           length (filter entry_ok es) = 5 \<and>
           filter (\<lambda>c. \<not> entry_ok c) es = [error_entry c0 m] \<and>
           (\<forall>w'. (\<forall>c. c \<noteq> c0 \<longrightarrow> nativeResp w' c = nativeResp w c \<and> tokenResp w' c = tokenResp w c) \<longrightarrow>
              (\<forall>c \<in> set six_chains. c \<noteq> c0 \<longrightarrow> fetch_chain w' c = fetch_chain w c)) \<and>
           (\<forall>w' a cs. \<exists>f. fetchWalletContext w' a cs = Inr f) \<and>
           summarizeWalletCounts
             \<lparr>fetched_address = address, fetched_chains = Some es, fetched_error = None\<rparr> =
             Summary address props \<and>
           map fst props = six_chains \<and>
           map snd props = map summarize_entry es \<and>
           map_of props c0 =
             Some \<lparr>nativeSymbol = toUpperCase c0, nativeApprox = Num 0, tokenCount = 0\<rparr> \<and>
           (\<forall>m'. map_sum id summarizeWalletCounts
                    (fetchWalletContext (w\<lparr>nativeResp := (nativeResp w)(c0 := Failed (Obj m'))\<rparr>)
                       address six_chains) =
                  Inr (Summary address props))"
proof -
  from one_failure_entries [OF assms] obtain f where
    f: "\<forall>c \<in> set six_chains. fetch_chain w c = Inr (f c)"
    and f0: "f c0 = error_entry c0 m"
    and ok: "\<forall>c \<in> set six_chains. entry_ok (f c) \<longleftrightarrow> c \<noteq> c0"
    by blast
  let ?es = "map f six_chains"
  let ?g = "\<lambda>w c. (c, if c = c0 then zero_summary (toUpperCase c0)
                       else summarize_entry (projr (fetch_chain w c)))"
  let ?props = "map (?g w) six_chains"
  have res: "fetchWalletContext w address six_chains =
      Inr \<lparr>fetched_address = address, fetched_chains = Some ?es, fetched_error = None\<rparr>"
    using fetch_loop_entries [OF f, of "[]"] by (simp add: fetchWalletContext_def)
  have chains: "map entry_chain ?es = six_chains"
  proof -
    have "map (entry_chain \<circ> f) six_chains = map (\<lambda>c. c) six_chains"
    proof (rule map_cong [OF refl])
      fix c assume "c \<in> set six_chains"
      with f have "fetch_chain w c = Inr (f c)" by blast
      from entry_chain_fetch_chain [OF this] show "(entry_chain \<circ> f) c = c" by simp
    qed
    then show ?thesis by simp
  qed
  have each: "map Inr ?es = map (fetch_chain w) six_chains"
  proof -
    have "map (Inr \<circ> f) six_chains = map (fetch_chain w) six_chains"
      by (rule map_cong [OF refl]) (use f in simp)
    then show ?thesis by simp
  qed
  have bad: "filter (\<lambda>c. \<not> entry_ok c) ?es = [error_entry c0 m]"
  proof -
    have "filter (\<lambda>c. \<not> entry_ok c) ?es =
        map f (filter ((\<lambda>c. \<not> entry_ok c) \<circ> f) six_chains)"
      by (rule filter_map)
    also have "filter ((\<lambda>c. \<not> entry_ok c) \<circ> f) six_chains = filter (\<lambda>c. c = c0) six_chains"
      by (rule filter_cong [OF refl]) (use ok in simp)
    also have "\<dots> = [c0]" by (rule filter_only [OF six_chains_distinct assms(1)])
    finally show ?thesis using f0 by simp
  qed
  have six: "length ?es = 6" by (simp add: six_chains_def)
  have "length (filter entry_ok ?es) + length (filter (\<lambda>c. \<not> entry_ok c) ?es) = length ?es"
    by (rule sum_length_filter_compl)
  then have good: "length (filter entry_ok ?es) = 5" unfolding bad six by simp
  have sib: "\<forall>w'. (\<forall>c. c \<noteq> c0 \<longrightarrow> nativeResp w' c = nativeResp w c \<and> tokenResp w' c = tokenResp w c) \<longrightarrow>
      (\<forall>c \<in> set six_chains. c \<noteq> c0 \<longrightarrow> fetch_chain w' c = fetch_chain w c)"
    using fetch_chain_cong by blast
  have ret: "\<forall>w' a cs. \<exists>f. fetchWalletContext w' a cs = Inr f"
    using fetchWalletContext_returns by blast
  have "map_sum id summarizeWalletCounts (fetchWalletContext w address six_chains) =
      Inr (Summary address ?props)"
    by (rule one_failure_summary [OF assms])
  then have sum: "summarizeWalletCounts
      \<lparr>fetched_address = address, fetched_chains = Some ?es, fetched_error = None\<rparr> =
      Summary address ?props"
    unfolding res by simp
  have keys: "map fst ?props = six_chains" by (simp add: comp_def)
  have vals: "map snd ?props = map summarize_entry ?es"
  proof -
    have "map (snd \<circ> ?g w) six_chains = map (summarize_entry \<circ> f) six_chains"
    proof (rule map_cong [OF refl])
      fix c assume "c \<in> set six_chains"
      with f have "fetch_chain w c = Inr (f c)" by blast
      then show "(snd \<circ> ?g w) c = (summarize_entry \<circ> f) c"
        using f0 by (simp add: summarize_error_entry)
    qed
    then show ?thesis by simp
  qed
  have failing: "map_of ?props c0 =
      Some \<lparr>nativeSymbol = toUpperCase c0, nativeApprox = Num 0, tokenCount = 0\<rparr>"
    using assms(1) by (simp add: map_of_map_restrict zero_summary_def)
  have any: "\<forall>m'. map_sum id summarizeWalletCounts
      (fetchWalletContext (w\<lparr>nativeResp := (nativeResp w)(c0 := Failed (Obj m'))\<rparr>)
         address six_chains) = Inr (Summary address ?props)"
  proof
    fix m'
    let ?w' = "w\<lparr>nativeResp := (nativeResp w)(c0 := Failed (Obj m'))\<rparr>"
    have h2: "nativeResp ?w' c0 = Failed (Obj m')" by simp
    have h3: "\<forall>c \<in> set six_chains. c \<noteq> c0 \<longrightarrow> (\<exists>r. nativeResp ?w' c = Replied r)"
      using assms(3) by simp
    have "map_sum id summarizeWalletCounts (fetchWalletContext ?w' address six_chains) =
        Inr (Summary address (map (?g ?w') six_chains))"
      by (rule one_failure_summary [OF assms(1) h2 h3])
    also have "map (?g ?w') six_chains = ?props"
    proof (rule map_cong [OF refl])
      fix c assume "c \<in> set six_chains"
      have "fetch_chain ?w' c = fetch_chain w c" if "c \<noteq> c0"
        by (rule fetch_chain_cong) (use that in simp_all)
      then show "?g ?w' c = ?g w c" by simp
    qed
    finally show "map_sum id summarizeWalletCounts (fetchWalletContext ?w' address six_chains) =
        Inr (Summary address ?props)" .
  qed
  from res chains each good bad sib ret sum keys vals failing any show ?thesis
    by (intro exI [of _ ?es] exI [of _ ?props] conjI)
qed

theorem one_chain_failure_witness:
  "\<exists>es props.
     fetchWalletContext sample_wallet ''0x52908400098527886e0f7030069857d2e4169ee7'' six_chains =
       Inr \<lparr>fetched_address = ''0x52908400098527886e0f7030069857d2e4169ee7'',
            fetched_chains = Some es, fetched_error = None\<rparr> \<and>
     map entry_chain es = six_chains \<and>
     length (filter entry_ok es) = 5 \<and>
     filter (\<lambda>c. \<not> entry_ok c) es =
       [error_entry ''bsc'' (Some ''timeout of 10000ms exceeded'')] \<and>
     summarizeWalletCounts
       \<lparr>fetched_address = ''0x52908400098527886e0f7030069857d2e4169ee7'',
        fetched_chains = Some es, fetched_error = None\<rparr> =
       Summary ''0x52908400098527886e0f7030069857d2e4169ee7'' props \<and>
     map fst props = six_chains \<and>
     map_of props ''bsc'' =
       Some \<lparr>nativeSymbol = toUpperCase ''bsc'', nativeApprox = Num 0, tokenCount = 0\<rparr>"
proof -
  have h1: "''bsc'' \<in> set six_chains" by (simp add: six_chains_def)
  have h2: "nativeResp sample_wallet ''bsc'' = Failed (Obj (Some ''timeout of 10000ms exceeded''))"
    by (simp add: sample_wallet_def)
  have h3: "\<forall>c \<in> set six_chains. c \<noteq> ''bsc'' \<longrightarrow> (\<exists>r. nativeResp sample_wallet c = Replied r)"
    by (simp add: sample_wallet_def)
  from one_chain_failure [OF h1 h2 h3, of "''0x52908400098527886e0f7030069857d2e4169ee7''"]
  show ?thesis by blast
qed

theorem one_chain_failure_counterexample:
  "map_sum id summarizeWalletCounts
     (fetchWalletContext sample_wallet ''0x52908400098527886e0f7030069857d2e4169ee7'' six_chains) =
     Inr (Summary ''0x52908400098527886e0f7030069857d2e4169ee7''
            [(''ethereum'', \<lparr>nativeSymbol = ''ETH'', nativeApprox = Num (3 / 2), tokenCount = 2\<rparr>),
             (''polygon'', \<lparr>nativeSymbol = ''MATIC'', nativeApprox = Num (3 / 2), tokenCount = 2\<rparr>),
             (''bsc'', \<lparr>nativeSymbol = ''BSC'', nativeApprox = Num 0, tokenCount = 0\<rparr>),
             (''arbitrum'', \<lparr>nativeSymbol = ''ETH'', nativeApprox = Num (3 / 2), tokenCount = 2\<rparr>),
             (''base'', \<lparr>nativeSymbol = ''ETH'', nativeApprox = Num (3 / 2), tokenCount = 2\<rparr>),
             (''optimism'', \<lparr>nativeSymbol = ''ETH'', nativeApprox = Num (3 / 2), tokenCount = 2\<rparr>)]) \<and>
   map_sum id summarizeWalletCounts
     (fetchWalletContext
        (sample_wallet\<lparr>nativeResp :=
           (nativeResp sample_wallet)(''bsc'' := Failed (Obj (Some ''Request failed with status code 429'')))\<rparr>)
        ''0x52908400098527886e0f7030069857d2e4169ee7'' six_chains) =
   map_sum id summarizeWalletCounts
     (fetchWalletContext sample_wallet ''0x52908400098527886e0f7030069857d2e4169ee7'' six_chains) \<and>
   fetchWalletContext
     (sample_wallet\<lparr>nativeResp :=
        (nativeResp sample_wallet)(''bsc'' := Failed (Obj (Some ''Request failed with status code 429'')))\<rparr>)
     ''0x52908400098527886e0f7030069857d2e4169ee7'' six_chains \<noteq>
   fetchWalletContext sample_wallet ''0x52908400098527886e0f7030069857d2e4169ee7'' six_chains"
  by code_simp

lemma summarize_zero_balance:
  assumes "map_of CHAIN_CONFIGS ch = Some cfg" "symbol cfg \<noteq> []"
    "nativeResp w ch = Replied (Some ''0x0'')" "tokenResp w ch = Replied (Some [])"
  shows "\<exists>z. fetch_chain w ch = Inr z \<and> summarize_entry z = zero_summary (symbol cfg)"
proof -
  have p: "or_zero (parseInt16 (orElse (Some ''0x0'') ''0x0'')) = 0" by code_simp
  from assms show ?thesis
    by (simp add: summarize_entry_def fetch_chain_def fetch_chain_try_def zero_summary_def
        isFinite_def Let_def p zero_rounds_to_zero)
qed

lemma six_chains_symbols:
  "list_all (\<lambda>ch. case map_of CHAIN_CONFIGS ch of
                    None \<Rightarrow> False
                  | Some cfg \<Rightarrow> symbol cfg \<noteq> [] \<and> symbol cfg \<noteq> toUpperCase ch) six_chains"
  by code_simp

text \<open>
  Claim C10, as amended. For a fetched entry \<^verbatim>\<open>{ chain, error }\<close> whose chain is not
  empty and is not repeated later in the list, \<^verbatim>\<open>summarizeWalletCounts\<close> has an entry for
  that chain with \<^verbatim>\<open>nativeApprox\<close> 0 and \<^verbatim>\<open>tokenCount\<close> 0, and nothing of the error; its
  \<^verbatim>\<open>nativeSymbol\<close> is the chain identifier in upper case. For each of the six chains the
  entry of a successful fetch of a zero balance and no tokens has the same two numbers
  but the symbol of the catalogue, which differs: the two are told apart by
  \<^verbatim>\<open>nativeSymbol\<close> only.
\<close>

theorem errored_chain_summary:
  assumes "fetched_chains f = Some (pre @ [error_entry ch e] @ post)" and "ch \<noteq> []"
    and "\<forall>d \<in> set post. entry_chain d \<noteq> ch"
  shows "(\<exists>props. summarizeWalletCounts f = Summary (fetched_address f) props \<and>
            map_of props ch =
              Some \<lparr>nativeSymbol = toUpperCase ch, nativeApprox = Num 0, tokenCount = 0\<rparr>) \<and>
         (\<forall>c \<in> set six_chains. \<forall>w.
            nativeResp w c = Replied (Some ''0x0'') \<and> tokenResp w c = Replied (Some []) \<longrightarrow>
            (\<exists>z. fetch_chain w c = Inr z \<and>
               nativeApprox (summarize_entry z) = nativeApprox (summarize_entry (error_entry c e)) \<and>
               tokenCount (summarize_entry z) = tokenCount (summarize_entry (error_entry c e)) \<and>
               nativeSymbol (summarize_entry z) \<noteq> nativeSymbol (summarize_entry (error_entry c e))))"
proof (intro conjI ballI allI impI)
  let ?props = "summarize_loop (pre @ [error_entry ch e] @ post) []"
  have "?props = summarize_loop post
      (assign ch (summarize_entry (error_entry ch e)) (summarize_loop pre []))"
    using assms(2) by (simp add: summarize_loop_append error_entry_def)
  then have "map_of ?props ch = Some (summarize_entry (error_entry ch e))"
    using summarize_loop_other [OF assms(3)] by (simp add: map_of_assign)
  with assms(1) show "\<exists>props. summarizeWalletCounts f = Summary (fetched_address f) props \<and>
      map_of props ch = Some \<lparr>nativeSymbol = toUpperCase ch, nativeApprox = Num 0, tokenCount = 0\<rparr>"
    by (simp add: summarizeWalletCounts_def summarize_error_entry zero_summary_def)
next
  fix c and w :: wallet_env
  assume c: "c \<in> set six_chains"
    and w: "nativeResp w c = Replied (Some ''0x0'') \<and> tokenResp w c = Replied (Some [])"
  from six_chains_symbols c obtain cfg where
    cfg: "map_of CHAIN_CONFIGS c = Some cfg" "symbol cfg \<noteq> []" "symbol cfg \<noteq> toUpperCase c"
    unfolding list_all_iff by (fastforce split: option.splits)
  from w have "\<exists>z. fetch_chain w c = Inr z \<and> summarize_entry z = zero_summary (symbol cfg)"
    by (intro summarize_zero_balance [OF cfg(1,2)]) simp_all
  then obtain z where z: "fetch_chain w c = Inr z" "summarize_entry z = zero_summary (symbol cfg)"
    by blast
  from z cfg(3) show "\<exists>z. fetch_chain w c = Inr z \<and>
      nativeApprox (summarize_entry z) = nativeApprox (summarize_entry (error_entry c e)) \<and>
      tokenCount (summarize_entry z) = tokenCount (summarize_entry (error_entry c e)) \<and>
      nativeSymbol (summarize_entry z) \<noteq> nativeSymbol (summarize_entry (error_entry c e))"
    by (simp add: summarize_error_entry zero_summary_def)
qed

theorem errored_chain_summary_witness:
  "(\<exists>props. map_sum id summarizeWalletCounts
              (fetchWalletContext sample_wallet ''0x52908400098527886e0f7030069857d2e4169ee7''
                 [''ethereum'', ''bsc'']) =
            Inr (Summary ''0x52908400098527886e0f7030069857d2e4169ee7'' props) \<and>
            map_of props ''bsc'' =
              Some \<lparr>nativeSymbol = ''BSC'', nativeApprox = Num 0, tokenCount = 0\<rparr>) \<and>
   (\<exists>z. fetch_chain empty_wallet ''bsc'' = Inr z \<and>
        nativeSymbol (summarize_entry z) \<noteq>
        nativeSymbol (summarize_entry (error_entry ''bsc'' (Some ''timeout of 10000ms exceeded''))))"
proof -
  let ?a = "''0x52908400098527886e0f7030069857d2e4169ee7''"
  let ?eth = "\<lparr>entry_chain = ''ethereum'',
      entry_native = Some \<lparr>wei = 1500000000000000000, native_symbol = ''ETH''\<rparr>,
      entry_tokens = Some [''USDC'', ''DAI''], entry_error = None\<rparr>"
  let ?f = "\<lparr>fetched_address = ?a,
      fetched_chains = Some [?eth, error_entry ''bsc'' (Some ''timeout of 10000ms exceeded'')],
      fetched_error = None\<rparr>"
  have fetched: "fetchWalletContext sample_wallet ?a [''ethereum'', ''bsc''] = Inr ?f"
    by code_simp
  have h1: "fetched_chains ?f =
      Some ([?eth] @ [error_entry ''bsc'' (Some ''timeout of 10000ms exceeded'')] @ [])"
    by simp
  have h2: "''bsc'' \<noteq> []" by simp
  have h3: "\<forall>d \<in> set []. entry_chain d \<noteq> ''bsc''" by simp
  have h4: "''bsc'' \<in> set six_chains" by (simp add: six_chains_def)
  have h5: "nativeResp empty_wallet ''bsc'' = Replied (Some ''0x0'') \<and>
      tokenResp empty_wallet ''bsc'' = Replied (Some [])"
    by (simp add: empty_wallet_def)
  have u: "toUpperCase ''bsc'' = ''BSC''" by code_simp
  note t = errored_chain_summary [OF h1 h2 h3]
  from t have "\<exists>props. summarizeWalletCounts ?f = Summary (fetched_address ?f) props \<and>
      map_of props ''bsc'' =
        Some \<lparr>nativeSymbol = toUpperCase ''bsc'', nativeApprox = Num 0, tokenCount = 0\<rparr>"
    by (rule conjunct1)
  then have a: "\<exists>props. map_sum id summarizeWalletCounts
        (fetchWalletContext sample_wallet ?a [''ethereum'', ''bsc'']) = Inr (Summary ?a props) \<and>
      map_of props ''bsc'' = Some \<lparr>nativeSymbol = ''BSC'', nativeApprox = Num 0, tokenCount = 0\<rparr>"
    unfolding fetched u by simp
  from t h4 h5 have b: "\<exists>z. fetch_chain empty_wallet ''bsc'' = Inr z \<and>
      nativeSymbol (summarize_entry z) \<noteq>
      nativeSymbol (summarize_entry (error_entry ''bsc'' (Some ''timeout of 10000ms exceeded'')))"
    by blast
  from a b show ?thesis by (rule conjI)
qed

theorem errored_chain_summary_counterexample:
  "map_sum id summarizeWalletCounts
     (fetchWalletContext failing_wallet ''0x52908400098527886e0f7030069857d2e4169ee7'' [''ethereum'']) =
     Inr (Summary ''0x52908400098527886e0f7030069857d2e4169ee7''
            [(''ethereum'', \<lparr>nativeSymbol = ''ETHEREUM'', nativeApprox = Num 0, tokenCount = 0\<rparr>)]) \<and>
   map_sum id summarizeWalletCounts
     (fetchWalletContext empty_wallet ''0x52908400098527886e0f7030069857d2e4169ee7'' [''ethereum'']) =
     Inr (Summary ''0x52908400098527886e0f7030069857d2e4169ee7''
            [(''ethereum'', \<lparr>nativeSymbol = ''ETH'', nativeApprox = Num 0, tokenCount = 0\<rparr>)]) \<and>
   map_sum id summarizeWalletCounts
     (fetchWalletContext failing_wallet ''0x52908400098527886e0f7030069857d2e4169ee7'' [''ethereum'']) \<noteq>
   map_sum id summarizeWalletCounts
     (fetchWalletContext empty_wallet ''0x52908400098527886e0f7030069857d2e4169ee7'' [''ethereum''])"
  by code_simp

text \<open>
  Claim C8, as amended. The native balance 1500000000000000000 wei, which arrives as the
  hexadecimal string \<^verbatim>\<open>0x14d1120d7b160000\<close>, is shown by the wallet route on each of the six
  chains (18 decimals) as the string \<^verbatim>\<open>1.500000\<close>, with six decimal places and its
  trailing zeros. In the wallet-context summary \<^verbatim>\<open>nativeApprox\<close> is that string converted
  back to a number, the number 1.5, which is printed as \<^verbatim>\<open>1.5\<close>.
\<close>

theorem native_balance_display:
  "parseInt16 ''0x14d1120d7b160000'' = Num 1500000000000000000 \<and>
   (\<forall>ch \<in> set six_chains. balanceInEth ch (Some ''0x14d1120d7b160000'') = Inr ''1.500000'') \<and>
   toFixed 6 (Num (1500000000000000000 / 1000000000000000000)) = ''1.500000'' \<and>
   nativeApprox (summarize_entry
      \<lparr>entry_chain = ch, entry_native = Some \<lparr>wei = 1500000000000000000, native_symbol = nsym\<rparr>,
       entry_tokens = ts, entry_error = err\<rparr>) = Num (3 / 2) \<and>
   map_sum id (nativeApprox \<circ> summarize_entry) (fetch_chain funded_wallet ''ethereum'') =
     Inr (Num (3 / 2)) \<and>
   JSON_stringify_number (Num (3 / 2)) = ''1.5''"
proof -
  have p: "parseInt16 ''0x14d1120d7b160000'' = Num 1500000000000000000" by code_simp
  have b: "list_all (\<lambda>ch. balanceInEth ch (Some ''0x14d1120d7b160000'') = Inr ''1.500000'') six_chains"
    by code_simp
  have f: "toFixed 6 (Num (1500000000000000000 / 1000000000000000000)) = ''1.500000''"
    by code_simp
  have n: "Number_of_string (toFixed 6 (Num (1500000000000000000 / 1000000000000000000))) = Num (3 / 2)"
    by code_simp
  have s: "nativeApprox (summarize_entry
      \<lparr>entry_chain = ch, entry_native = Some \<lparr>wei = 1500000000000000000, native_symbol = nsym\<rparr>,
       entry_tokens = ts, entry_error = err\<rparr>) = Num (3 / 2)"
    unfolding summarize_entry_def Let_def isFinite_def
    by (simp only: chain_entry.simps native_balance.simps summary_entry.simps option.simps
        number.simps if_True n)
  have w: "map_sum id (nativeApprox \<circ> summarize_entry) (fetch_chain funded_wallet ''ethereum'') =
      Inr (Num (3 / 2))"
    by code_simp
  have j: "JSON_stringify_number (Num (3 / 2)) = ''1.5''" by code_simp
  from b have b': "\<forall>ch \<in> set six_chains. balanceInEth ch (Some ''0x14d1120d7b160000'') = Inr ''1.500000''"
    unfolding list_all_iff .
  from p b' f s w j show ?thesis by (intro conjI)
qed

theorem native_balance_display_witness:
  "balanceInEth ''polygon'' (Some ''0x14d1120d7b160000'') = Inr ''1.500000''"
  using native_balance_display by (simp add: six_chains_def)

theorem native_balance_display_counterexample:
  "map_sum id (JSON_stringify_number \<circ> nativeApprox \<circ> summarize_entry)
     (fetch_chain funded_wallet ''ethereum'') = Inr ''1.5'' \<and>
   map_sum id (JSON_stringify_number \<circ> nativeApprox \<circ> summarize_entry)
     (fetch_chain funded_wallet ''ethereum'') \<noteq> Inr ''1.500000''"
  by code_simp

end
